theory Spec2Isabelle
  imports Complex_Main "HOL-Library.Char_ord" "HOL-Library.List_Lexorder"
begin

section \<open>Python values used by the scripts\<close>

text \<open>
  Strings are \<^typ>\<open>string\<close>; an XML text or a JSON field that may be absent is a
  \<^typ>\<open>string option\<close> (\<open>None\<close> is Python's \<open>None\<close>). The order on strings is the
  lexicographic order on character codes, which is the order of Python's \<open>sorted\<close> on ASCII
  strings.
\<close>

datatype py_error = AttributeError | ZeroDivisionError | HTTPError

text \<open>\<open>s.startswith(p)\<close>.\<close>

definition startswith :: "string \<Rightarrow> string \<Rightarrow> bool" where
  "startswith s p = (take (length p) s = p)"

text \<open>
  \<open>s.replace(old, new)\<close> for a non-empty \<open>old\<close> (the only use in the scripts): every
  non-overlapping occurrence of \<open>old\<close>, scanning from the left, is replaced by \<open>new\<close>.
\<close>

fun py_replace :: "string \<Rightarrow> string \<Rightarrow> string \<Rightarrow> string" where
  "py_replace old new [] = []"
| "py_replace old new (c # cs) =
     (if old \<noteq> [] \<and> take (length old) (c # cs) = old
      then new @ py_replace old new (drop (length old) (c # cs))
      else c # py_replace old new cs)"

text \<open>Truth value of an optional string: \<open>None\<close> and the empty string are false.\<close>

definition truthy :: "string option \<Rightarrow> bool" where
  "truthy v = (case v of None \<Rightarrow> False | Some s \<Rightarrow> s \<noteq> [])"

text \<open>What an f-string prints for an optional string.\<close>

definition py_str :: "string option \<Rightarrow> string" where
  "py_str v = (case v of None \<Rightarrow> ''None'' | Some s \<Rightarrow> s)"

text \<open>\<open>s.lower()\<close> on ASCII letters.\<close>

definition lower_char :: "char \<Rightarrow> char" where
  "lower_char c =
     (if CHR ''A'' \<le> c \<and> c \<le> CHR ''Z'' then char_of (of_char c + (32::nat)) else c)"

definition lower :: "string \<Rightarrow> string" where
  "lower s = map lower_char s"

text \<open>\<open>str(n)\<close> for a non-negative integer: its decimal digits.\<close>

definition digit_char :: "nat \<Rightarrow> char" where
  "digit_char d = char_of (48 + d)"

fun str_nat :: "nat \<Rightarrow> string" where
  "str_nat n = (if n < 10 then [digit_char n] else str_nat (n div 10) @ [digit_char (n mod 10)])"

declare str_nat.simps [simp del]

definition sonar_prefix :: string where
  "sonar_prefix = ''SonarCSharp_''"

definition sonar_uuid :: string where
  "sonar_uuid = ''8954dff3-f19c-429c-ac76-c45fa5e73b62''"

section \<open>The XML rule export\<close>

text \<open>
  An element of a parsed document, as ElementTree gives it: its tag, its text (\<open>None\<close> when
  the element has no text) and its children in document order.
\<close>

datatype element = Element (tag: string) (elem_text: "string option") (children: "element list")

text \<open>The elements strictly below an element, in document order.\<close>

fun descendants :: "element \<Rightarrow> element list" where
  "descendants (Element t x cs) = concat (map (\<lambda>c. c # descendants c) cs)"

text \<open>\<open>root.findall('.//name')\<close>: the descendants of the root with that tag.\<close>

definition findall_below :: "string \<Rightarrow> element \<Rightarrow> element list" where
  "findall_below name doc = filter (\<lambda>e. tag e = name) (descendants doc)"

text \<open>\<open>e.findall('name')\<close>: the children with that tag.\<close>

definition findall_children :: "string \<Rightarrow> element \<Rightarrow> element list" where
  "findall_children name e = filter (\<lambda>c. tag c = name) (children e)"

text \<open>\<open>e.find('name')\<close>: the first child with that tag, or \<open>None\<close>.\<close>

definition find_child :: "string \<Rightarrow> element \<Rightarrow> element option" where
  "find_child name e = List.find (\<lambda>c. tag c = name) (children e)"

text \<open>\<open>e.find('name').text\<close>, which raises \<open>AttributeError\<close> when there is no such child.\<close>

definition child_text :: "string \<Rightarrow> element \<Rightarrow> py_error + string option" where
  "child_text name e =
     (case find_child name e of None \<Rightarrow> Inl AttributeError | Some c \<Rightarrow> Inr (elem_text c))"

subsection \<open>\<open>get_xml_rules\<close> of the reporting scripts\<close>

text \<open>
  The body of the loop of \<open>get_xml_rules\<close>: the text of the first \<open>key\<close> child of a rule,
  when the child exists and has a text.
\<close>

definition rule_key_text :: "element \<Rightarrow> string option" where
  "rule_key_text rule =
     (case find_child ''key'' rule of None \<Rightarrow> None | Some key_elem \<Rightarrow> elem_text key_elem)"

definition xml_rule_keys :: "element \<Rightarrow> string list" where
  "xml_rule_keys doc = List.map_filter rule_key_text (findall_below ''rule'' doc)"

text \<open>\<open>check_missing_rules.py\<close> and \<open>verify_coding_standard.py\<close> return the sorted list.\<close>

definition get_xml_rules :: "element \<Rightarrow> string list" where
  "get_xml_rules doc = sort (xml_rule_keys doc)"

text \<open>\<open>get_default_patterns.py\<close> returns the set.\<close>

definition get_xml_rules_set :: "element \<Rightarrow> string set" where
  "get_xml_rules_set doc = set (xml_rule_keys doc)"

subsection \<open>\<open>parse_sonar_xml\<close> of the importer\<close>

record sonar_rule =
  repository_key :: "string option"
  rule_key :: "string option"
  priority :: "string option"
  parameters :: "(string option \<times> string option) list"

text \<open>
  A Python dictionary keeps its keys in insertion order and an assignment to an existing key
  keeps the key's place: \<open>d[k] = v\<close> on an association list.
\<close>

fun dict_set :: "'k \<Rightarrow> 'v \<Rightarrow> ('k \<times> 'v) list \<Rightarrow> ('k \<times> 'v) list" where
  "dict_set k v [] = [(k, v)]"
| "dict_set k v (p # ps) = (if fst p = k then (k, v) # ps else p # dict_set k v ps)"

text \<open>The loop over the \<open>parameter\<close> children of a \<open>parameters\<close> element.\<close>

fun parse_parameters ::
  "element list \<Rightarrow> (string option \<times> string option) list
   \<Rightarrow> py_error + (string option \<times> string option) list" where
  "parse_parameters [] acc = Inr acc"
| "parse_parameters (param # rest) acc =
     (case child_text ''key'' param of
        Inl e \<Rightarrow> Inl e
      | Inr param_key \<Rightarrow>
          (case child_text ''value'' param of
             Inl e \<Rightarrow> Inl e
           | Inr param_value \<Rightarrow> parse_parameters rest (dict_set param_key param_value acc)))"

definition parse_rule :: "element \<Rightarrow> py_error + sonar_rule" where
  "parse_rule rule =
     (case child_text ''repositoryKey'' rule of
        Inl e \<Rightarrow> Inl e
      | Inr rk \<Rightarrow>
     (case child_text ''key'' rule of
        Inl e \<Rightarrow> Inl e
      | Inr k \<Rightarrow>
     (case child_text ''priority'' rule of
        Inl e \<Rightarrow> Inl e
      | Inr pr \<Rightarrow>
     (case (case find_child ''parameters'' rule of
              None \<Rightarrow> Inr []
            | Some params_element \<Rightarrow>
                parse_parameters (findall_children ''parameter'' params_element) []) of
        Inl e \<Rightarrow> Inl e
      | Inr ps \<Rightarrow>
          Inr \<lparr>repository_key = rk, rule_key = k, priority = pr, parameters = ps\<rparr>))))"

fun parse_rules :: "element list \<Rightarrow> py_error + sonar_rule list" where
  "parse_rules [] = Inr []"
| "parse_rules (rule # rest) =
     (case parse_rule rule of
        Inl e \<Rightarrow> Inl e
      | Inr r \<Rightarrow> (case parse_rules rest of Inl e \<Rightarrow> Inl e | Inr rs \<Rightarrow> Inr (r # rs)))"

text \<open>
  \<open>parse_sonar_xml\<close> on a parsed document: the list \<open>self.sonar_rules\<close>, or the
  \<open>AttributeError\<close> of a rule that lacks one of the children the code reads.
\<close>

definition parse_sonar_xml :: "element \<Rightarrow> py_error + sonar_rule list" where
  "parse_sonar_xml doc = parse_rules (findall_below ''rule'' doc)"

section \<open>The remote API\<close>

text \<open>
  JSON objects of the replies, with the fields the scripts read; a field that may be absent
  is an option. A pattern configuration and a tool payload are the JSON bodies the importer
  sends.
\<close>

record tool =
  tool_name :: "string option"
  tool_uuid :: "string option"

record pattern =
  pattern_id :: "string option"
  pattern_enabled :: "bool option"

record page =
  page_data :: "pattern list"
  page_cursor :: "string option"

record pattern_config =
  config_id :: string
  config_enabled :: bool
  config_parameters :: "(string option \<times> string option) list option"

record tool_payload =
  payload_enabled :: bool
  payload_patterns :: "pattern_config list"

text \<open>
  The requests the scripts send. The organization is a constant of a run and is left out of
  the requests; the arguments are the parts of the URL and of the body that vary.
\<close>

datatype request =
    GetTools
  | GetStandards
  | PostStandard string
  | GetStandardTools string
  | PatchTool string string tool_payload
  | GetPatterns string "string option"
  | PostPromote string
  | GetStandardTool string string

text \<open>
  The server is the environment of a run: for each endpoint, the reply to a request, given
  the number of requests the program has sent before (so that the same request may be
  answered differently at different times). \<open>None\<close> and \<open>False\<close> stand for a
  \<open>RequestException\<close>: no connection, an HTTP error status at \<open>raise_for_status\<close>, or a
  body that is not JSON. A reply that is given has the shape the API documents.
\<close>

record server =
  tools_reply :: "nat \<Rightarrow> tool list option"
  standards_reply :: "nat \<Rightarrow> string list option"
  create_reply :: "nat \<Rightarrow> string \<Rightarrow> string option"
  standard_tools_reply :: "nat \<Rightarrow> string \<Rightarrow> tool list option"
  patch_tool_reply :: "nat \<Rightarrow> string \<Rightarrow> string \<Rightarrow> tool_payload \<Rightarrow> bool"
  patterns_reply :: "nat \<Rightarrow> string \<Rightarrow> string option \<Rightarrow> page option"
  promote_reply :: "nat \<Rightarrow> string \<Rightarrow> bool"
  standard_tool_reply :: "nat \<Rightarrow> string \<Rightarrow> string \<Rightarrow> pattern list option"

text \<open>
  What a run has done so far: the requests it has sent, and the errors and warnings it has
  printed on a failed request or a missing tool. The other prints, among them the warnings
  about the rules left out, are not modelled.
\<close>

datatype message =
    ErrorRetrievingTools
  | WarningStandardNames
  | ErrorCreatingStandard
  | ErrorRetrievingStandardTools
  | WarningDisableTool string
  | WarningNoTool string
  | WarningAvailablePatterns
  | WarningToolPatterns string
  | ErrorEnablingPatterns
  | ErrorPromoting
  | ErrorRetrievingPatterns
  | ErrorRetrievingStandardPatterns
  | UnexpectedError

record state =
  sent :: "request list"
  printed :: "message list"

definition init_state :: state where
  "init_state = \<lparr>sent = [], printed = []\<rparr>"

definition send :: "request \<Rightarrow> state \<Rightarrow> state" where
  "send req st = st\<lparr>sent := sent st @ [req]\<rparr>"

definition print :: "message \<Rightarrow> state \<Rightarrow> state" where
  "print m st = st\<lparr>printed := printed st @ [m]\<rparr>"

text \<open>
  The result of a step: \<open>sys.exit\<close> with a status, a value, or a pagination loop cut off
  by its bound (see \<open>paginate\<close>).
\<close>

datatype 'a outcome = Exit nat | OutOfFuel | Ok 'a

definition then_do ::
  "'a outcome \<times> state \<Rightarrow> ('a \<Rightarrow> state \<Rightarrow> 'b outcome \<times> state) \<Rightarrow> 'b outcome \<times> state" where
  "then_do r f =
     (case r of
        (Ok x, st) \<Rightarrow> f x st
      | (Exit n, st) \<Rightarrow> (Exit n, st)
      | (OutOfFuel, st) \<Rightarrow> (OutOfFuel, st))"

section \<open>Pattern retrieval\<close>

text \<open>
  The rule key of a pattern id: \<open>pattern_id.replace('SonarCSharp_', '')\<close>, taken by every
  script under the guard \<open>pattern_id.startswith('SonarCSharp_')\<close>.
\<close>

definition strip_key :: "string \<Rightarrow> string option" where
  "strip_key pid =
     (if startswith pid sonar_prefix then Some (py_replace sonar_prefix [] pid) else None)"

text \<open>The loop of \<open>get_codacy_patterns\<close>, with \<open>pattern.get('id', '')\<close>.\<close>

definition pattern_keys :: "pattern list \<Rightarrow> string list" where
  "pattern_keys ps =
     List.map_filter (\<lambda>p. strip_key (case pattern_id p of None \<Rightarrow> [] | Some i \<Rightarrow> i)) ps"

text \<open>
  \<open>get_codacy_patterns\<close> of \<open>check_missing_rules.py\<close>: one GET, whose failure is not
  caught.
\<close>

definition get_codacy_patterns :: "server \<Rightarrow> state \<Rightarrow> (py_error + string list) \<times> state" where
  "get_codacy_patterns srv st =
     (case patterns_reply srv (length (sent st)) sonar_uuid None of
        None \<Rightarrow> (Inl HTTPError, send (GetPatterns sonar_uuid None) st)
      | Some patterns_data \<Rightarrow>
          (Inr (sort (pattern_keys (page_data patterns_data))),
           send (GetPatterns sonar_uuid None) st))"

text \<open>
  \<open>get_enabled_patterns_in_standard\<close> of \<open>verify_coding_standard.py\<close>: the keys of the
  patterns with \<open>pattern.get('enabled', False)\<close>; the empty list when the request fails.
\<close>

definition enabled_keys :: "pattern list \<Rightarrow> string list" where
  "enabled_keys ps =
     pattern_keys (filter (\<lambda>p. case pattern_enabled p of None \<Rightarrow> False | Some b \<Rightarrow> b) ps)"

definition get_enabled_patterns_in_standard ::
  "server \<Rightarrow> string \<Rightarrow> state \<Rightarrow> string list \<times> state" where
  "get_enabled_patterns_in_standard srv standard_id st =
     (case standard_tool_reply srv (length (sent st)) standard_id sonar_uuid of
        None \<Rightarrow>
          ([], print ErrorRetrievingStandardPatterns
                 (send (GetStandardTool standard_id sonar_uuid) st))
      | Some patterns \<Rightarrow>
          (sort (enabled_keys patterns), send (GetStandardTool standard_id sonar_uuid) st))"

subsection \<open>The pagination loop\<close>

text \<open>
  The inner loop of the importer's retrievals: \<open>pattern.get('id')\<close> is added when it is
  neither \<open>None\<close> nor empty.
\<close>

fun add_pattern_ids :: "pattern list \<Rightarrow> string set \<Rightarrow> string set" where
  "add_pattern_ids [] all_patterns = all_patterns"
| "add_pattern_ids (p # ps) all_patterns =
     add_pattern_ids ps
       (case pattern_id p of
          None \<Rightarrow> all_patterns
        | Some i \<Rightarrow> if i \<noteq> [] then insert i all_patterns else all_patterns)"

text \<open>The inner loop of \<open>get_all_sonarc_patterns\<close>: the stripped key is added.\<close>

fun add_rule_keys :: "pattern list \<Rightarrow> string set \<Rightarrow> string set" where
  "add_rule_keys [] all_patterns = all_patterns"
| "add_rule_keys (p # ps) all_patterns =
     add_rule_keys ps
       (case pattern_id p of
          None \<Rightarrow> all_patterns
        | Some i \<Rightarrow>
            (case (if i \<noteq> [] then strip_key i else None) of
               None \<Rightarrow> all_patterns
             | Some k \<Rightarrow> insert k all_patterns))"

text \<open>
  The \<open>while True\<close> loop that \<open>_get_available_patterns\<close>, \<open>_get_all_tool_patterns\<close> and
  \<open>get_all_sonarc_patterns\<close> share, word for word but for the tool in the URL, the inner
  loop and the message printed on a failure. Each iteration sends one GET with the cursor
  of the previous page (no \<open>cursor\<close> parameter when it is \<open>None\<close> or empty); a failed request
  prints the message and leaves the loop; a page without a cursor leaves the loop. The loop
  may run forever, so it is bounded by a number of iterations, and \<open>OutOfFuel\<close> is the
  result of a loop that is still running at the bound.
\<close>

fun paginate ::
  "nat \<Rightarrow> server \<Rightarrow> string \<Rightarrow> (pattern list \<Rightarrow> string set \<Rightarrow> string set) \<Rightarrow> message
   \<Rightarrow> string option \<Rightarrow> string set \<Rightarrow> state \<Rightarrow> string set outcome \<times> state" where
  "paginate 0 srv uuid add_page msg cursor all_patterns st = (OutOfFuel, st)"
| "paginate (Suc fuel) srv uuid add_page msg cursor all_patterns st =
     (let params = (if truthy cursor then cursor else None);
          st1 = send (GetPatterns uuid params) st
      in case patterns_reply srv (length (sent st)) uuid params of
           None \<Rightarrow> (Ok all_patterns, print msg st1)
         | Some patterns_data \<Rightarrow>
             (let all_patterns1 = add_page (page_data patterns_data) all_patterns;
                  cursor1 = page_cursor patterns_data
              in if \<not> truthy cursor1 then (Ok all_patterns1, st1)
                 else paginate fuel srv uuid add_page msg cursor1 all_patterns1 st1))"

definition get_available_patterns :: "nat \<Rightarrow> server \<Rightarrow> state \<Rightarrow> string set outcome \<times> state" where
  "get_available_patterns fuel srv st =
     paginate fuel srv sonar_uuid add_pattern_ids WarningAvailablePatterns None {} st"

definition get_all_tool_patterns ::
  "nat \<Rightarrow> server \<Rightarrow> string \<Rightarrow> state \<Rightarrow> string set outcome \<times> state" where
  "get_all_tool_patterns fuel srv uuid st =
     paginate fuel srv uuid add_pattern_ids (WarningToolPatterns uuid) None {} st"

definition get_all_sonarc_patterns :: "nat \<Rightarrow> server \<Rightarrow> state \<Rightarrow> string set outcome \<times> state" where
  "get_all_sonarc_patterns fuel srv st =
     paginate fuel srv sonar_uuid add_rule_keys ErrorRetrievingPatterns None {} st"

section \<open>The reconciliation reports\<close>

text \<open>
  What \<open>main\<close> of \<open>check_missing_rules.py\<close> prints from the two sorted lists: the two
  list lengths, the sorted members of each difference and the three set sizes.
\<close>

record check_report =
  xml_total :: nat
  codacy_total :: nat
  missing_listed :: "string list"
  extra_listed :: "string list"
  missing_count :: nat
  extra_count :: nat
  matching_count :: nat

definition reconcile :: "string list \<Rightarrow> string list \<Rightarrow> check_report" where
  "reconcile xml_rules codacy_patterns =
     (let missing_in_codacy = set xml_rules - set codacy_patterns;
          extra_in_codacy = set codacy_patterns - set xml_rules
      in \<lparr>xml_total = length xml_rules,
          codacy_total = length codacy_patterns,
          missing_listed = sorted_list_of_set missing_in_codacy,
          extra_listed = sorted_list_of_set extra_in_codacy,
          missing_count = card missing_in_codacy,
          extra_count = card extra_in_codacy,
          matching_count = card (set xml_rules \<inter> set codacy_patterns)\<rparr>)"

definition check_missing_main :: "element \<Rightarrow> server \<Rightarrow> py_error + check_report" where
  "check_missing_main doc srv =
     (let xml_rules = get_xml_rules doc
      in case fst (get_codacy_patterns srv init_state) of
           Inl e \<Rightarrow> Inl e
         | Inr codacy_patterns \<Rightarrow> Inr (reconcile xml_rules codacy_patterns))"

text \<open>
  What \<open>main\<close> of \<open>verify_coding_standard.py\<close> prints before the success rate; here the
  intersection is a set of its own, \<open>matching_rules\<close>.
\<close>

record verify_report =
  verify_xml_total :: nat
  verify_enabled_total :: nat
  missing_in_standard :: "string list"
  extra_in_standard :: "string list"
  matching_rules :: "string set"
  missing_from_standard_count :: nat
  extra_in_standard_count :: nat
  correctly_enabled_count :: nat

definition verify_reconcile :: "string list \<Rightarrow> string list \<Rightarrow> verify_report" where
  "verify_reconcile xml_rules enabled_rules =
     (let missing = set xml_rules - set enabled_rules;
          extra = set enabled_rules - set xml_rules;
          matching = set xml_rules \<inter> set enabled_rules
      in \<lparr>verify_xml_total = length xml_rules,
          verify_enabled_total = length enabled_rules,
          missing_in_standard = sorted_list_of_set missing,
          extra_in_standard = sorted_list_of_set extra,
          matching_rules = matching,
          missing_from_standard_count = card missing,
          extra_in_standard_count = card extra,
          correctly_enabled_count = card matching\<rparr>)"

text \<open>
  \<open>(len(matching_rules) / len(xml_rules)) * 100\<close>. Python's \<open>/\<close> raises
  \<open>ZeroDivisionError\<close> on a zero divisor; the quotient is given here as the exact rational
  that the float approximates.
\<close>

definition success_rate :: "nat \<Rightarrow> nat \<Rightarrow> py_error + rat" where
  "success_rate n_matching n_xml =
     (if n_xml = 0 then Inl ZeroDivisionError
      else Inr (of_nat n_matching / of_nat n_xml * 100))"

definition verify_main ::
  "element \<Rightarrow> server \<Rightarrow> string \<Rightarrow> py_error + verify_report \<times> rat" where
  "verify_main doc srv standard_id =
     (let xml_rules = get_xml_rules doc;
          enabled_rules = fst (get_enabled_patterns_in_standard srv standard_id init_state);
          report = verify_reconcile xml_rules enabled_rules
      in case success_rate (card (matching_rules report)) (length xml_rules) of
           Inl e \<Rightarrow> Inl e
         | Inr rate \<Rightarrow> Inr (report, rate))"

section \<open>The importer\<close>

subsection \<open>A unique name for the standard\<close>

text \<open>The candidate name \<open>f"{self.standard_name} ({counter})"\<close>.\<close>

definition numbered :: "string \<Rightarrow> nat \<Rightarrow> string" where
  "numbered standard_name counter = standard_name @ '' ('' @ str_nat counter @ '')''"

text \<open>
  The number a string of digits stands for. It is the inverse of \<open>str_nat\<close>, so distinct
  counters give distinct candidate names, and only finitely many candidates are among the
  existing names: the search for a free counter ends.
\<close>

definition digits_value :: "string \<Rightarrow> nat" where
  "digits_value s = foldl (\<lambda>a c. 10 * a + (of_char c - 48)) 0 s"

lemma of_char_digit_char: "d < 10 \<Longrightarrow> of_char (digit_char d) = (48 + d :: nat)"
  by (simp add: digit_char_def)

lemma digits_value_str_nat: "digits_value (str_nat n) = n"
proof (induction n rule: str_nat.induct)
  case (1 n)
  show ?case
  proof (cases "n < 10")
    case True
    then show ?thesis
      by (subst str_nat.simps) (simp add: digits_value_def of_char_digit_char)
  next
    case False
    with "1.IH" have "digits_value (str_nat (n div 10)) = n div 10" by simp
    with False show ?thesis
      by (subst str_nat.simps) (simp add: digits_value_def of_char_digit_char)
  qed
qed

lemma inj_str_nat: "inj str_nat"
  by (rule inj_on_inverseI [where g = digits_value]) (rule digits_value_str_nat)

lemma inj_numbered: "inj (numbered standard_name)"
  using inj_str_nat by (auto simp: inj_def numbered_def)

lemma finite_numbered: "finite {j. numbered standard_name j \<in> set existing_names}"
proof -
  have "{j. numbered standard_name j \<in> set existing_names}
      = numbered standard_name -` set existing_names"
    by auto
  then show ?thesis
    by (simp add: finite_vimageI inj_numbered)
qed

text \<open>
  The loop \<open>while f"{self.standard_name} ({counter})" in existing_names: counter += 1\<close>.
\<close>

function find_counter :: "string list \<Rightarrow> string \<Rightarrow> nat \<Rightarrow> nat" where
  "find_counter existing_names standard_name counter =
     (if numbered standard_name counter \<in> set existing_names
      then find_counter existing_names standard_name (counter + 1)
      else counter)"
  by pat_completeness auto
termination
proof (relation "measure (\<lambda>(existing_names, standard_name, counter).
          card {j. counter \<le> j \<and> numbered standard_name j \<in> set existing_names})")
  show "wf (measure (\<lambda>(existing_names, standard_name, counter).
          card {j. counter \<le> j \<and> numbered standard_name j \<in> set existing_names}))"
    by simp
next
  fix existing_names :: "string list" and standard_name :: string and counter :: nat
  assume used: "numbered standard_name counter \<in> set existing_names"
  let ?later = "\<lambda>c. {j. c \<le> j \<and> numbered standard_name j \<in> set existing_names}"
  have fin: "finite (?later counter)"
    using finite_numbered [of standard_name existing_names] by simp
  have "counter \<in> ?later counter" and "counter \<notin> ?later (counter + 1)"
    using used by simp_all
  moreover have "?later (counter + 1) \<subseteq> ?later counter"
    by auto
  ultimately have "?later (counter + 1) \<subset> ?later counter"
    by blast
  with fin have "card (?later (counter + 1)) < card (?later counter)"
    by (rule psubset_card_mono)
  then show "((existing_names, standard_name, counter + 1), (existing_names, standard_name, counter))
      \<in> measure (\<lambda>(existing_names, standard_name, counter).
          card {j. counter \<le> j \<and> numbered standard_name j \<in> set existing_names})"
    by simp
qed

declare find_counter.simps [simp del]

text \<open>
  \<open>_get_unique_standard_name\<close>: a failed request is a warning, and the requested name is
  used as it is.
\<close>

definition get_unique_standard_name :: "server \<Rightarrow> string \<Rightarrow> state \<Rightarrow> string \<times> state" where
  "get_unique_standard_name srv standard_name st =
     (let st1 = send GetStandards st
      in case standards_reply srv (length (sent st)) of
           None \<Rightarrow> (standard_name, print WarningStandardNames st1)
         | Some existing_names \<Rightarrow>
             if standard_name \<notin> set existing_names then (standard_name, st1)
             else (numbered standard_name (find_counter existing_names standard_name 1), st1))"

subsection \<open>The steps of a run\<close>

text \<open>The loop of \<open>get_tools\<close> that fills \<open>self.tool_uuids\<close>.\<close>

fun store_tool_uuids :: "tool list \<Rightarrow> (string \<rightharpoonup> string) \<Rightarrow> (string \<rightharpoonup> string)" where
  "store_tool_uuids [] tool_uuids = tool_uuids"
| "store_tool_uuids (t # ts) tool_uuids =
     store_tool_uuids ts
       (case tool_uuid t of
          None \<Rightarrow> tool_uuids
        | Some u \<Rightarrow>
            if u \<noteq> []
            then tool_uuids(lower (case tool_name t of None \<Rightarrow> [] | Some n \<Rightarrow> n) \<mapsto> u)
            else tool_uuids)"

definition get_tools :: "server \<Rightarrow> state \<Rightarrow> (string \<rightharpoonup> string) outcome \<times> state" where
  "get_tools srv st =
     (let st1 = send GetTools st
      in case tools_reply srv (length (sent st)) of
           None \<Rightarrow> (Exit 1, print ErrorRetrievingTools st1)
         | Some tools \<Rightarrow> (Ok (store_tool_uuids tools Map.empty), st1))"

definition create_coding_standard :: "server \<Rightarrow> string \<Rightarrow> state \<Rightarrow> string outcome \<times> state" where
  "create_coding_standard srv standard_name st =
     (case get_unique_standard_name srv standard_name st of
        (final_name, st1) \<Rightarrow>
          (let st2 = send (PostStandard final_name) st1
           in case create_reply srv (length (sent st1)) final_name of
                None \<Rightarrow> (Exit 1, print ErrorCreatingStandard st2)
              | Some standard_id \<Rightarrow> (Ok standard_id, st2)))"

text \<open>\<open>_disable_tool\<close>: a failed PATCH is a warning.\<close>

definition disable_tool :: "server \<Rightarrow> string \<Rightarrow> string \<Rightarrow> state \<Rightarrow> state" where
  "disable_tool srv standard_id uuid st =
     (let payload = \<lparr>payload_enabled = False, payload_patterns = []\<rparr>;
          st1 = send (PatchTool standard_id uuid payload) st
      in if patch_tool_reply srv (length (sent st)) standard_id uuid payload then st1
         else print (WarningDisableTool uuid) st1)"

text \<open>The loop of \<open>disable_all_tools\<close> over the tools of the standard.\<close>

fun disable_tools :: "server \<Rightarrow> string \<Rightarrow> tool list \<Rightarrow> state \<Rightarrow> state" where
  "disable_tools srv standard_id [] st = st"
| "disable_tools srv standard_id (t # ts) st =
     disable_tools srv standard_id ts
       (case tool_uuid t of
          None \<Rightarrow> st
        | Some u \<Rightarrow> if u \<noteq> [] then disable_tool srv standard_id u st else st)"

definition disable_all_tools :: "server \<Rightarrow> string \<Rightarrow> state \<Rightarrow> unit outcome \<times> state" where
  "disable_all_tools srv standard_id st =
     (let st1 = send (GetStandardTools standard_id) st
      in case standard_tools_reply srv (length (sent st)) standard_id of
           None \<Rightarrow> (Exit 1, print ErrorRetrievingStandardTools st1)
         | Some tools \<Rightarrow> (Ok (), disable_tools srv standard_id tools st1))"

text \<open>
  The mapping of repository keys to tool names: both known repositories map to the same
  tool, and a rule of any other repository is left out with a warning.
\<close>

definition tool_of_repository :: "string option \<Rightarrow> string option" where
  "tool_of_repository repository =
     (if repository = Some ''csharpsquid'' then Some ''SonarC#''
      else if repository = Some ''roslyn.sonaranalyzer.security.cs'' then Some ''SonarC#''
      else None)"

text \<open>\<open>f"SonarCSharp_{rule_key}"\<close>.\<close>

definition rule_pattern_id :: "sonar_rule \<Rightarrow> string" where
  "rule_pattern_id rule = sonar_prefix @ py_str (rule_key rule)"

text \<open>
  The pattern configuration of a rule; the \<open>parameters\<close> field is there when the rule's
  dictionary is not empty, and lists its items as name and value.
\<close>

definition pattern_config_of :: "sonar_rule \<Rightarrow> pattern_config" where
  "pattern_config_of rule =
     \<lparr>config_id = rule_pattern_id rule,
      config_enabled = True,
      config_parameters = (if parameters rule \<noteq> [] then Some (parameters rule) else None)\<rparr>"

text \<open>\<open>d.setdefault(k, []).append(v)\<close> on a dictionary of lists.\<close>

fun dict_append :: "'k \<Rightarrow> 'v \<Rightarrow> ('k \<times> 'v list) list \<Rightarrow> ('k \<times> 'v list) list" where
  "dict_append k v [] = [(k, [v])]"
| "dict_append k v (p # ps) =
     (if fst p = k then (k, snd p @ [v]) # ps else p # dict_append k v ps)"

text \<open>The loop of \<open>_map_sonar_rules_to_codacy_patterns\<close> over \<open>self.sonar_rules\<close>.\<close>

fun map_rules ::
  "string set \<Rightarrow> sonar_rule list \<Rightarrow> (string \<times> pattern_config list) list
   \<Rightarrow> (string \<times> pattern_config list) list" where
  "map_rules available_patterns [] tool_patterns = tool_patterns"
| "map_rules available_patterns (rule # rest) tool_patterns =
     (case tool_of_repository (repository_key rule) of
        None \<Rightarrow> map_rules available_patterns rest tool_patterns
      | Some name \<Rightarrow>
          if rule_pattern_id rule \<notin> available_patterns
          then map_rules available_patterns rest tool_patterns
          else map_rules available_patterns rest
                 (dict_append name (pattern_config_of rule) tool_patterns))"

definition map_sonar_rules_to_codacy_patterns ::
  "nat \<Rightarrow> server \<Rightarrow> sonar_rule list \<Rightarrow> state
   \<Rightarrow> (string \<times> pattern_config list) list outcome \<times> state" where
  "map_sonar_rules_to_codacy_patterns fuel srv sonar_rules st =
     then_do (get_available_patterns fuel srv st)
       (\<lambda>available_patterns st1. (Ok (map_rules available_patterns sonar_rules []), st1))"

text \<open>
  The list \<open>comprehensive_patterns\<close> of \<open>_enable_tool_patterns\<close>: the given patterns, then
  every other pattern of the tool as disabled. Python does not fix the order in which a set
  is iterated; the model iterates it in sorted order.
\<close>

definition comprehensive_patterns :: "pattern_config list \<Rightarrow> string set \<Rightarrow> pattern_config list" where
  "comprehensive_patterns patterns all_available_patterns =
     (let enabled_pattern_ids = set (map config_id patterns)
      in patterns @
         map (\<lambda>pid. \<lparr>config_id = pid, config_enabled = False, config_parameters = None\<rparr>)
           (filter (\<lambda>pid. pid \<notin> enabled_pattern_ids)
              (sorted_list_of_set all_available_patterns)))"

text \<open>\<open>_enable_tool_patterns\<close>: a failed PATCH is printed and gives \<open>False\<close>.\<close>

definition enable_tool_patterns ::
  "nat \<Rightarrow> server \<Rightarrow> string \<Rightarrow> string \<Rightarrow> pattern_config list \<Rightarrow> state \<Rightarrow> bool outcome \<times> state" where
  "enable_tool_patterns fuel srv standard_id uuid patterns st =
     then_do (get_all_tool_patterns fuel srv uuid st)
       (\<lambda>all_available_patterns st1.
          let payload = \<lparr>payload_enabled = True,
                         payload_patterns = comprehensive_patterns patterns all_available_patterns\<rparr>;
              st2 = send (PatchTool standard_id uuid payload) st1
          in if patch_tool_reply srv (length (sent st1)) standard_id uuid payload
             then (Ok True, st2)
             else (Ok False, print ErrorEnablingPatterns st2))"

text \<open>The loop of \<open>enable_sonar_rules\<close> over the items of \<open>tool_patterns\<close>.\<close>

fun enable_tools ::
  "nat \<Rightarrow> server \<Rightarrow> (string \<rightharpoonup> string) \<Rightarrow> string \<Rightarrow> (string \<times> pattern_config list) list
   \<Rightarrow> state \<Rightarrow> unit outcome \<times> state" where
  "enable_tools fuel srv tool_uuids standard_id [] st = (Ok (), st)"
| "enable_tools fuel srv tool_uuids standard_id ((name, patterns) # rest) st =
     (if \<not> truthy (tool_uuids (lower name))
      then enable_tools fuel srv tool_uuids standard_id rest (print (WarningNoTool name) st)
      else then_do
             (enable_tool_patterns fuel srv standard_id (the (tool_uuids (lower name)))
                patterns st)
             (\<lambda>success st1. enable_tools fuel srv tool_uuids standard_id rest st1))"

definition enable_sonar_rules ::
  "nat \<Rightarrow> server \<Rightarrow> (string \<rightharpoonup> string) \<Rightarrow> sonar_rule list \<Rightarrow> string \<Rightarrow> state
   \<Rightarrow> unit outcome \<times> state" where
  "enable_sonar_rules fuel srv tool_uuids sonar_rules standard_id st =
     then_do (map_sonar_rules_to_codacy_patterns fuel srv sonar_rules st)
       (\<lambda>tool_patterns st1. enable_tools fuel srv tool_uuids standard_id tool_patterns st1)"

definition promote_coding_standard :: "server \<Rightarrow> string \<Rightarrow> state \<Rightarrow> unit outcome \<times> state" where
  "promote_coding_standard srv standard_id st =
     (let st1 = send (PostPromote standard_id) st
      in if promote_reply srv (length (sent st)) standard_id then (Ok (), st1)
         else (Exit 1, print ErrorPromoting st1))"

text \<open>
  \<open>_generate_output_files\<close>: the rules whose pattern is available and the rules whose
  pattern is not, as written to the two files (the writing itself is not modelled).
\<close>

definition generate_output_files ::
  "nat \<Rightarrow> server \<Rightarrow> sonar_rule list \<Rightarrow> state
   \<Rightarrow> (sonar_rule list \<times> sonar_rule list) outcome \<times> state" where
  "generate_output_files fuel srv sonar_rules st =
     then_do (get_available_patterns fuel srv st)
       (\<lambda>available_patterns st1.
          (Ok (filter (\<lambda>rule. rule_pattern_id rule \<in> available_patterns) sonar_rules,
               filter (\<lambda>rule. rule_pattern_id rule \<notin> available_patterns) sonar_rules),
           st1))"

text \<open>
  \<open>run\<close>, as \<open>main\<close> calls it on a document that parses: the steps in the order of the
  source. An \<open>AttributeError\<close> of \<open>parse_sonar_xml\<close> reaches \<open>main\<close>, which prints it and
  exits with status 1. A run that comes to its end gives the two numbers of its summary,
  the rules in the XML and the rules imported, and the process ends with status 0. The
  exceptions of a reply of another shape than the API documents and of the writing of the
  two files are outside the model.
\<close>

definition run ::
  "nat \<Rightarrow> server \<Rightarrow> string \<Rightarrow> element \<Rightarrow> state \<Rightarrow> (nat \<times> nat) outcome \<times> state" where
  "run fuel srv standard_name doc st =
     (case parse_sonar_xml doc of
        Inl e \<Rightarrow> (Exit 1, print UnexpectedError st)
      | Inr sonar_rules \<Rightarrow>
          then_do (get_tools srv st) (\<lambda>tool_uuids st1.
          then_do (create_coding_standard srv standard_name st1) (\<lambda>standard_id st2.
          then_do (disable_all_tools srv standard_id st2) (\<lambda>u3 st3.
          then_do (enable_sonar_rules fuel srv tool_uuids sonar_rules standard_id st3) (\<lambda>u4 st4.
          then_do (promote_coding_standard srv standard_id st4) (\<lambda>u5 st5.
          then_do (generate_output_files fuel srv sonar_rules st5) (\<lambda>files st6.
          then_do (get_available_patterns fuel srv st6) (\<lambda>available_patterns st7.
            (Ok (length sonar_rules,
                 length (filter (\<lambda>rule. rule_pattern_id rule \<in> available_patterns)
                           sonar_rules)),
             st7)))))))))"

subsection \<open>The steps of the configuration sequence\<close>

text \<open>
  The step a request belongs to: the name check and the POST that create the standard, the
  GET and the PATCHes that disable its tools, the PATCH that enables patterns, the POST
  that promotes. The other GETs belong to no step.
\<close>

datatype step = CreateStandard | DisableTools | EnablePatterns | Promote

fun step_of :: "request \<Rightarrow> step option" where
  "step_of GetStandards = Some CreateStandard"
| "step_of (PostStandard n) = Some CreateStandard"
| "step_of (GetStandardTools s) = Some DisableTools"
| "step_of (PatchTool s u payload) =
     Some (if payload_enabled payload then EnablePatterns else DisableTools)"
| "step_of (PostPromote s) = Some Promote"
| "step_of GetTools = None"
| "step_of (GetPatterns u c) = None"
| "step_of (GetStandardTool s u) = None"

fun step_rank :: "step \<Rightarrow> nat" where
  "step_rank CreateStandard = 0"
| "step_rank DisableTools = 1"
| "step_rank EnablePatterns = 2"
| "step_rank Promote = 3"

definition steps_of :: "request list \<Rightarrow> step list" where
  "steps_of requests = List.map_filter step_of requests"

section \<open>The replies a pagination loop meets\<close>

text \<open>
  A loop that starts after \<open>n\<close> requests with the cursor \<open>c\<close> sends its \<open>k\<close>-th request
  (from 0) as request number \<open>n + k\<close>, with the cursor of the reply before it. These
  functions follow that chain on the server alone, without the loop: the cursor sent with
  the \<open>k\<close>-th request, the reply to it, whether a reply ends the loop (a failure, or a page
  without a cursor), and what a reply adds to the set.
\<close>

fun chain_cursor :: "server \<Rightarrow> string \<Rightarrow> nat \<Rightarrow> string option \<Rightarrow> nat \<Rightarrow> string option" where
  "chain_cursor srv uuid n c 0 = (if truthy c then c else None)"
| "chain_cursor srv uuid n c (Suc k) =
     (case patterns_reply srv (n + k) uuid (chain_cursor srv uuid n c k) of
        None \<Rightarrow> None
      | Some pg \<Rightarrow> if truthy (page_cursor pg) then page_cursor pg else None)"

definition chain_reply :: "server \<Rightarrow> string \<Rightarrow> nat \<Rightarrow> string option \<Rightarrow> nat \<Rightarrow> page option" where
  "chain_reply srv uuid n c k = patterns_reply srv (n + k) uuid (chain_cursor srv uuid n c k)"

definition last_reply :: "page option \<Rightarrow> bool" where
  "last_reply r = (case r of None \<Rightarrow> True | Some pg \<Rightarrow> \<not> truthy (page_cursor pg))"

definition add_reply ::
  "(pattern list \<Rightarrow> string set \<Rightarrow> string set) \<Rightarrow> page option \<Rightarrow> string set \<Rightarrow> string set" where
  "add_reply add_page r acc = (case r of None \<Rightarrow> acc | Some pg \<Rightarrow> add_page (page_data pg) acc)"

text \<open>The pattern ids of a page that the importer's loops add, and those of a reply.\<close>

definition page_ids :: "pattern list \<Rightarrow> string set" where
  "page_ids ps = {i. i \<noteq> [] \<and> Some i \<in> pattern_id ` set ps}"

definition reply_ids :: "page option \<Rightarrow> string set" where
  "reply_ids r = (case r of None \<Rightarrow> {} | Some pg \<Rightarrow> page_ids (page_data pg))"

section \<open>What a step adds to the requests sent\<close>


definition adds :: "state \<Rightarrow> nat \<Rightarrow> nat \<Rightarrow> state \<Rightarrow> bool" where
  "adds st lo hi st1 =
     (\<exists>tr. sent st1 = sent st @ tr
         \<and> sorted (map step_rank (steps_of tr))
         \<and> set (map step_rank (steps_of tr)) \<subseteq> {lo..hi})"

section \<open>What a step prints\<close>

text \<open>
  The messages that the source prints right before \<open>sys.exit(1)\<close>. A part of a run is calm
  when it has printed none of them; a result is handled when an exit has status 1 and comes
  right after the first such message, and any other result comes after none.
\<close>

fun fatal :: "message \<Rightarrow> bool" where
  "fatal UnexpectedError = True"
| "fatal ErrorRetrievingTools = True"
| "fatal ErrorCreatingStandard = True"
| "fatal ErrorRetrievingStandardTools = True"
| "fatal ErrorPromoting = True"
| "fatal m = False"

definition handled :: "state \<Rightarrow> 'a outcome \<times> state \<Rightarrow> bool" where
  "handled st r =
     (\<exists>ms. printed (snd r) = printed st @ ms
         \<and> (case fst r of
               Exit n \<Rightarrow> n = 1 \<and> ms \<noteq> [] \<and> fatal (last ms) \<and> \<not> list_ex fatal (butlast ms)
             | OutOfFuel \<Rightarrow> \<not> list_ex fatal ms
             | Ok x \<Rightarrow> \<not> list_ex fatal ms))"

definition calm :: "state \<Rightarrow> state \<Rightarrow> bool" where
  "calm st st1 = (\<exists>ms. printed st1 = printed st @ ms \<and> \<not> list_ex fatal ms)"

text \<open>
  The messages of the two exits that come before the configuration sequence: the catch-all
  of \<open>run\<close>, which a failed XML parsing reaches, and the failed tool listing. A part of a
  run omits them when it has printed neither.
\<close>

fun early :: "message \<Rightarrow> bool" where
  "early UnexpectedError = True"
| "early ErrorRetrievingTools = True"
| "early m = False"

definition omits :: "state \<Rightarrow> state \<Rightarrow> bool" where
  "omits st st1 = (\<exists>ms. printed st1 = printed st @ ms \<and> \<not> list_ex early ms)"

section \<open>The tools the disable loop visits\<close>

text \<open>
  The loop of \<open>disable_all_tools\<close> calls \<open>_disable_tool\<close> for every tool of the standard
  with a uuid that is not empty, in the order of the reply; these are their uuids.
\<close>

definition disabled_uuids :: "tool list \<Rightarrow> string list" where
  "disabled_uuids tools =
     List.map_filter
       (\<lambda>t. case tool_uuid t of None \<Rightarrow> None | Some u \<Rightarrow> if u \<noteq> [] then Some u else None)
       tools"

text \<open>
  The uuids among them whose PATCH fails, when the first PATCH is the request number \<open>n\<close>
  and each later one is the next request.
\<close>

fun failed_disables :: "server \<Rightarrow> string \<Rightarrow> nat \<Rightarrow> string list \<Rightarrow> string list" where
  "failed_disables srv standard_id n [] = []"
| "failed_disables srv standard_id n (u # us) =
     (if patch_tool_reply srv n standard_id u \<lparr>payload_enabled = False, payload_patterns = []\<rparr>
      then [] else [u])
     @ failed_disables srv standard_id (Suc n) us"

section \<open>The rules the importer enables\<close>

text \<open>
  The rules of a known repository whose pattern id is among the available patterns, in the
  order of the XML file.
\<close>

definition matched_rules :: "string set \<Rightarrow> sonar_rule list \<Rightarrow> sonar_rule list" where
  "matched_rules available rules =
     filter (\<lambda>rule. repository_key rule
                       \<in> {Some ''csharpsquid'', Some ''roslyn.sonaranalyzer.security.cs''}
                     \<and> rule_pattern_id rule \<in> available) rules"

section \<open>The specification's reading of rule extraction\<close>

text \<open>
  Rule extraction as the specification words it, to be compared with \<open>get_xml_rules\<close>: the
  text of every \<open>key\<close> child of every \<open>rule\<close> element of the document, the root included.
\<close>

definition spec_rule_keys :: "element \<Rightarrow> string set" where
  "spec_rule_keys doc =
     set (concat (map (\<lambda>rule. List.map_filter (\<lambda>k. if tag k = ''key'' then elem_text k else None)
                                 (children rule))
                      (filter (\<lambda>e. tag e = ''rule'') (doc # descendants doc))))"

section \<open>Example inputs\<close>

text \<open>A document whose root is a rule, with a rule below it that has two keys.\<close>

definition nested_doc :: element where
  "nested_doc =
     Element ''rule'' None
       [Element ''key'' (Some ''R'') [],
        Element ''rule'' None
          [Element ''key'' (Some ''A'') [], Element ''key'' (Some ''B'') []]]"

text \<open>A quality profile with two rules, the second with a parameter.\<close>

definition profile_doc :: element where
  "profile_doc =
     Element ''profile'' None
       [Element ''rules'' None
          [Element ''rule'' None
             [Element ''repositoryKey'' (Some ''csharpsquid'') [],
              Element ''key'' (Some ''S1'') [],
              Element ''priority'' (Some ''MAJOR'') []],
           Element ''rule'' None
             [Element ''repositoryKey'' (Some ''csharpsquid'') [],
              Element ''key'' (Some ''S2'') [],
              Element ''priority'' (Some ''MINOR'') [],
              Element ''parameters'' None
                [Element ''parameter'' None
                   [Element ''key'' (Some ''max'') [], Element ''value'' (Some ''3'') []]]]]]"

definition profile_rules :: "sonar_rule list" where
  "profile_rules =
     [\<lparr>repository_key = Some ''csharpsquid'', rule_key = Some ''S1'', priority = Some ''MAJOR'',
        parameters = []\<rparr>,
      \<lparr>repository_key = Some ''csharpsquid'', rule_key = Some ''S2'', priority = Some ''MINOR'',
        parameters = [(Some ''max'', Some ''3'')]\<rparr>]"

text \<open>A quality profile that lists the same rule key twice.\<close>

definition duplicate_doc :: element where
  "duplicate_doc =
     Element ''profile'' None
       [Element ''rule'' None [Element ''key'' (Some ''S1'') []],
        Element ''rule'' None [Element ''key'' (Some ''S1'') []]]"

text \<open>A pattern whose id holds the prefix a second time.\<close>

definition doubled_pattern :: pattern where
  "doubled_pattern =
     \<lparr>pattern_id = Some ''SonarCSharp_ASonarCSharp_B'', pattern_enabled = Some True\<rparr>"

text \<open>A server every request to which fails.\<close>

definition failing_server :: server where
  "failing_server =
     \<lparr>tools_reply = (\<lambda>n. None),
      standards_reply = (\<lambda>n. None),
      create_reply = (\<lambda>n name. None),
      standard_tools_reply = (\<lambda>n s. None),
      patch_tool_reply = (\<lambda>n s u p. False),
      patterns_reply = (\<lambda>n u c. None),
      promote_reply = (\<lambda>n s. False),
      standard_tool_reply = (\<lambda>n s u. None)\<rparr>"

text \<open>A server with two standards, named \<open>Std\<close> and \<open>Std (1)\<close>.\<close>

definition names_server :: server where
  "names_server = failing_server\<lparr>standards_reply := (\<lambda>n. Some [''Std'', ''Std (1)''])\<rparr>"

text \<open>
  A server with two pages of patterns: the first page carries the cursor \<open>c1\<close>, the page
  at that cursor carries none.
\<close>

definition two_page_server :: server where
  "two_page_server =
     failing_server\<lparr>patterns_reply :=
       (\<lambda>n uuid c.
          if c = None
          then Some \<lparr>page_data = [\<lparr>pattern_id = Some ''SonarCSharp_S1'', pattern_enabled = None\<rparr>],
                     page_cursor = Some ''c1''\<rparr>
          else if c = Some ''c1''
          then Some \<lparr>page_data = [\<lparr>pattern_id = Some ''SonarCSharp_S2'', pattern_enabled = None\<rparr>],
                     page_cursor = None\<rparr>
          else None)\<rparr>"

text \<open>
  A server on which every request succeeds: the tool SonarC#, no standard yet, one tool in
  the new standard, and one page with the patterns of the rules S2 and S3. The requests of
  the run of the importer on \<open>profile_doc\<close> against it.
\<close>

definition sonar_page :: page where
  "sonar_page =
     \<lparr>page_data = [\<lparr>pattern_id = Some ''SonarCSharp_S2'', pattern_enabled = None\<rparr>,
                   \<lparr>pattern_id = Some ''SonarCSharp_S3'', pattern_enabled = None\<rparr>],
      page_cursor = None\<rparr>"

definition working_server :: server where
  "working_server =
     \<lparr>tools_reply = (\<lambda>n. Some [\<lparr>tool_name = Some ''SonarC#'', tool_uuid = Some ''u1''\<rparr>]),
      standards_reply = (\<lambda>n. Some []),
      create_reply = (\<lambda>n name. Some ''42''),
      standard_tools_reply =
        (\<lambda>n s. Some [\<lparr>tool_name = Some ''ESLint'', tool_uuid = Some ''u2''\<rparr>]),
      patch_tool_reply = (\<lambda>n s u p. True),
      patterns_reply = (\<lambda>n u c. Some sonar_page),
      promote_reply = (\<lambda>n s. True),
      standard_tool_reply = (\<lambda>n s u. None)\<rparr>"

definition working_trace :: "request list" where
  "working_trace =
     [GetTools, GetStandards, PostStandard ''Std'', GetStandardTools ''42'',
      PatchTool ''42'' ''u2'' \<lparr>payload_enabled = False, payload_patterns = []\<rparr>,
      GetPatterns sonar_uuid None, GetPatterns ''u1'' None,
      PatchTool ''42'' ''u1''
        \<lparr>payload_enabled = True,
         payload_patterns =
           [\<lparr>config_id = ''SonarCSharp_S2'', config_enabled = True,
             config_parameters = Some [(Some ''max'', Some ''3'')]\<rparr>,
            \<lparr>config_id = ''SonarCSharp_S3'', config_enabled = False, config_parameters = None\<rparr>]\<rparr>,
      PostPromote ''42'', GetPatterns sonar_uuid None, GetPatterns sonar_uuid None]"

text \<open>
  The same server, except that the name check fails and every PATCH fails.
\<close>

definition patch_failing_server :: server where
  "patch_failing_server =
     working_server\<lparr>standards_reply := (\<lambda>n. None), patch_tool_reply := (\<lambda>n s u p. False)\<rparr>"

text \<open>
  A server on which the requests that end a run succeed and others fail: the name check
  fails, the standard has two tools and the PATCH of the first one fails, and the patterns
  endpoint gives one page with a cursor and fails on the request for the next page.
\<close>

definition flaky_server :: server where
  "flaky_server =
     working_server
       \<lparr>standards_reply := (\<lambda>n. None),
        standard_tools_reply :=
          (\<lambda>n s. Some [\<lparr>tool_name = Some ''ESLint'', tool_uuid = Some ''u2''\<rparr>,
                        \<lparr>tool_name = Some ''PMD'', tool_uuid = Some ''u3''\<rparr>]),
        patch_tool_reply := (\<lambda>n s u p. u \<noteq> ''u2''),
        patterns_reply :=
          (\<lambda>n u c.
             if c = None
             then Some \<lparr>page_data = [\<lparr>pattern_id = Some ''SonarCSharp_S2'',
                                       pattern_enabled = None\<rparr>],
                        page_cursor = Some ''c1''\<rparr>
             else None)\<rparr>"

text \<open>A server that lists the tools and refuses to create a standard.\<close>

definition create_failing_server :: server where
  "create_failing_server = working_server\<lparr>create_reply := (\<lambda>n name. None)\<rparr>"

text \<open>
  A quality profile with two rules, the second of a repository the importer does not know;
  and the tool dictionary that \<open>get_tools\<close> builds on \<open>working_server\<close>.
\<close>

definition mixed_doc :: element where
  "mixed_doc =
     Element ''profile'' None
       [Element ''rules'' None
          [Element ''rule'' None
             [Element ''repositoryKey'' (Some ''csharpsquid'') [],
              Element ''key'' (Some ''S2'') [],
              Element ''priority'' (Some ''MAJOR'') []],
           Element ''rule'' None
             [Element ''repositoryKey'' (Some ''other'') [],
              Element ''key'' (Some ''S3'') [],
              Element ''priority'' (Some ''MINOR'') []]]]"

definition sonar_tool_uuids :: "string \<rightharpoonup> string" where
  "sonar_tool_uuids = [''sonarc#'' \<mapsto> ''u1'']"

section \<open>Rule extraction\<close>

lemma find_Some_split:
  "List.find P xs = Some x \<longleftrightarrow> (\<exists>ys zs. xs = ys @ x # zs \<and> P x \<and> (\<forall>y\<in>set ys. \<not> P y))"
proof (induction xs)
  case Nil
  then show ?case by simp
next
  case (Cons a xs)
  show ?case
  proof (cases "P a")
    case True
    have "(\<exists>ys zs. a # xs = ys @ x # zs \<and> P x \<and> (\<forall>y\<in>set ys. \<not> P y)) \<longleftrightarrow> a = x"
    proof
      assume "\<exists>ys zs. a # xs = ys @ x # zs \<and> P x \<and> (\<forall>y\<in>set ys. \<not> P y)"
      then obtain ys zs where h: "a # xs = ys @ x # zs" "\<forall>y\<in>set ys. \<not> P y" by blast
      with True show "a = x" by (cases ys) auto
    next
      assume "a = x"
      with True show "\<exists>ys zs. a # xs = ys @ x # zs \<and> P x \<and> (\<forall>y\<in>set ys. \<not> P y)"
        by (intro exI[of _ "[]"] exI[of _ xs]) simp
    qed
    with True show ?thesis by auto
  next
    case False
    have "(\<exists>ys zs. a # xs = ys @ x # zs \<and> P x \<and> (\<forall>y\<in>set ys. \<not> P y))
       \<longleftrightarrow> (\<exists>ys zs. xs = ys @ x # zs \<and> P x \<and> (\<forall>y\<in>set ys. \<not> P y))"
    proof
      assume "\<exists>ys zs. a # xs = ys @ x # zs \<and> P x \<and> (\<forall>y\<in>set ys. \<not> P y)"
      then obtain ys zs where h: "a # xs = ys @ x # zs" "P x" "\<forall>y\<in>set ys. \<not> P y" by blast
      with False obtain ys' where "ys = a # ys'" by (cases ys) auto
      with h show "\<exists>ys zs. xs = ys @ x # zs \<and> P x \<and> (\<forall>y\<in>set ys. \<not> P y)" by auto
    next
      assume "\<exists>ys zs. xs = ys @ x # zs \<and> P x \<and> (\<forall>y\<in>set ys. \<not> P y)"
      then obtain ys zs where h: "xs = ys @ x # zs" "P x" "\<forall>y\<in>set ys. \<not> P y" by blast
      with False show "\<exists>ys zs. a # xs = ys @ x # zs \<and> P x \<and> (\<forall>y\<in>set ys. \<not> P y)"
        by (intro exI[of _ "a # ys"] exI[of _ zs]) simp
    qed
    with False Cons.IH show ?thesis by simp
  qed
qed

lemma rule_key_text_Some:
  "rule_key_text rule = Some t \<longleftrightarrow>
     (\<exists>before k after. children rule = before @ k # after \<and> ''key'' \<notin> tag ` set before
        \<and> tag k = ''key'' \<and> elem_text k = Some t)"
proof -
  have "rule_key_text rule = Some t \<longleftrightarrow>
      (\<exists>k. List.find (\<lambda>c. tag c = ''key'') (children rule) = Some k \<and> elem_text k = Some t)"
    by (simp add: rule_key_text_def find_child_def split: option.splits)
  also have "\<dots> \<longleftrightarrow> (\<exists>before k after. children rule = before @ k # after \<and> ''key'' \<notin> tag ` set before
        \<and> tag k = ''key'' \<and> elem_text k = Some t)"
    unfolding find_Some_split by (simp add: image_iff) metis
  finally show ?thesis .
qed

lemma set_map_filter: "set (List.map_filter f xs) = {y. \<exists>x\<in>set xs. f x = Some y}"
  by (induction xs) (auto simp: List.map_filter_simps split: option.splits)

lemma set_xml_rule_keys:
  "set (xml_rule_keys doc) =
     {t. \<exists>rule \<in> set (descendants doc). tag rule = ''rule'' \<and> rule_key_text rule = Some t}"
  by (auto simp: xml_rule_keys_def findall_below_def set_map_filter)


lemma parse_rule_key: "parse_rule rule = Inr r \<Longrightarrow> rule_key r = rule_key_text rule"
  by (auto simp: parse_rule_def child_text_def rule_key_text_def split: sum.splits option.splits)

lemma parse_rules_keys:
  "parse_rules rs = Inr rules \<Longrightarrow> List.map_filter rule_key rules = List.map_filter rule_key_text rs"
proof (induction rs arbitrary: rules)
  case Nil
  then show ?case by (simp add: List.map_filter_simps)
next
  case (Cons a rs)
  from Cons.prems obtain r rest where
    a: "parse_rule a = Inr r" and rest: "parse_rules rs = Inr rest" and rules: "rules = r # rest"
    by (auto split: sum.splits)
  from Cons.IH [OF rest] parse_rule_key [OF a] rules show ?case
    by (simp add: List.map_filter_simps split: option.splits)
qed

text \<open>
  C6 (as amended). The reporting scripts collect the text of the first \<open>key\<close> child of each
  \<open>rule\<close> element strictly below the root: a string is in the result exactly when some
  \<open>rule\<close> descendant of the root has a first \<open>key\<close> child with that text. The set-valued
  variant returns the same set, and when the importer's \<open>parse_sonar_xml\<close> succeeds, the keys
  of its rules that have a text are the same list.
\<close>

theorem rule_extraction:
  "set (get_xml_rules doc) =
     {t. \<exists>rule \<in> set (descendants doc). tag rule = ''rule'' \<and>
        (\<exists>before k after. children rule = before @ k # after \<and> ''key'' \<notin> tag ` set before
           \<and> tag k = ''key'' \<and> elem_text k = Some t)}
   \<and> get_xml_rules_set doc = set (get_xml_rules doc)
   \<and> (parse_sonar_xml doc = Inr rules \<longrightarrow> List.map_filter rule_key rules = xml_rule_keys doc)"
proof (intro conjI impI)
  show "set (get_xml_rules doc) =
     {t. \<exists>rule \<in> set (descendants doc). tag rule = ''rule'' \<and>
        (\<exists>before k after. children rule = before @ k # after \<and> ''key'' \<notin> tag ` set before
           \<and> tag k = ''key'' \<and> elem_text k = Some t)}"
    by (simp add: get_xml_rules_def set_xml_rule_keys rule_key_text_Some)
  show "get_xml_rules_set doc = set (get_xml_rules doc)"
    by (simp add: get_xml_rules_def get_xml_rules_set_def)
  assume "parse_sonar_xml doc = Inr rules"
  then show "List.map_filter rule_key rules = xml_rule_keys doc"
    by (simp add: parse_sonar_xml_def xml_rule_keys_def parse_rules_keys)
qed

lemma parse_profile_doc: "parse_sonar_xml profile_doc = Inr profile_rules"
  by (simp add: parse_sonar_xml_def profile_doc_def profile_rules_def findall_below_def
      parse_rule_def child_text_def find_child_def findall_children_def)

theorem rule_extraction_witness:
  "parse_sonar_xml profile_doc = Inr profile_rules
   \<and> List.map_filter rule_key profile_rules = xml_rule_keys profile_doc
   \<and> set (get_xml_rules profile_doc) = {''S1'', ''S2''}"
proof -
  have "xml_rule_keys profile_doc = [''S1'', ''S2'']"
    by (simp add: xml_rule_keys_def profile_doc_def findall_below_def List.map_filter_simps
        rule_key_text_def find_child_def)
  then have "set (get_xml_rules profile_doc) = {''S1'', ''S2''}"
    by (simp add: get_xml_rules_def)
  with rule_extraction [of profile_doc profile_rules] parse_profile_doc show ?thesis
    by simp
qed

text \<open>
  C6 as the specification states it fails on \<open>nested_doc\<close>: the root rule's key \<open>R\<close> and
  the second key \<open>B\<close> of the inner rule are texts of \<open>key\<close> children of \<open>rule\<close> elements
  of the document, and neither is collected.
\<close>

theorem rule_extraction_counterexample:
  "get_xml_rules nested_doc = [''A''] \<and> get_xml_rules_set nested_doc = {''A''}
   \<and> spec_rule_keys nested_doc = {''R'', ''A'', ''B''}"
  by (simp add: get_xml_rules_def get_xml_rules_set_def xml_rule_keys_def spec_rule_keys_def
      nested_doc_def findall_below_def List.map_filter_simps rule_key_text_def find_child_def
      insert_commute)

section \<open>Reconciliation\<close>

text \<open>
  C2. For every list of XML rule keys and every list of remote pattern keys, what is listed
  and counted as missing is the set of keys in the XML list and not in the remote list, what
  is listed and counted as extra is the reverse difference, and what is counted (and, in the
  verification script, kept) as matching is the set of keys in both. Each listed key is
  listed once.
\<close>

theorem reconcile_sets:
  "set (missing_listed (reconcile xs ys)) = {k. k \<in> set xs \<and> k \<notin> set ys}
   \<and> set (extra_listed (reconcile xs ys)) = {k. k \<in> set ys \<and> k \<notin> set xs}
   \<and> missing_count (reconcile xs ys) = card {k. k \<in> set xs \<and> k \<notin> set ys}
   \<and> extra_count (reconcile xs ys) = card {k. k \<in> set ys \<and> k \<notin> set xs}
   \<and> matching_count (reconcile xs ys) = card {k. k \<in> set xs \<and> k \<in> set ys}
   \<and> set (missing_in_standard (verify_reconcile xs ys)) = {k. k \<in> set xs \<and> k \<notin> set ys}
   \<and> set (extra_in_standard (verify_reconcile xs ys)) = {k. k \<in> set ys \<and> k \<notin> set xs}
   \<and> matching_rules (verify_reconcile xs ys) = {k. k \<in> set xs \<and> k \<in> set ys}
   \<and> distinct (missing_listed (reconcile xs ys)) \<and> distinct (extra_listed (reconcile xs ys))"
proof -
  have d1: "set xs - set ys = {k. k \<in> set xs \<and> k \<notin> set ys}" by auto
  have d2: "set ys - set xs = {k. k \<in> set ys \<and> k \<notin> set xs}" by auto
  have d3: "set xs \<inter> set ys = {k. k \<in> set xs \<and> k \<in> set ys}" by auto
  show ?thesis
    unfolding reconcile_def verify_reconcile_def Let_def
    by (simp add: d1 [symmetric] d2 [symmetric] d3 [symmetric])
qed

lemma get_xml_rules_duplicate_doc: "get_xml_rules duplicate_doc = [''S1'', ''S1'']"
  by (simp add: get_xml_rules_def xml_rule_keys_def duplicate_doc_def findall_below_def
      List.map_filter_simps rule_key_text_def find_child_def)

lemma card_diff_inter: "finite A \<Longrightarrow> card (A - B) + card (A \<inter> B) = card A"
proof -
  assume fin: "finite A"
  have "(A - B) \<union> (A \<inter> B) = A" and "(A - B) \<inter> (A \<inter> B) = {}"
    by auto
  with fin card_Un_disjoint [of "A - B" "A \<inter> B"] show ?thesis
    by simp
qed

text \<open>
  C9. The summary counts partition the two sets: missing plus matching is the number of
  distinct XML keys, extra plus matching is the number of distinct remote keys. The two
  printed totals are the list lengths; they are never below the distinct counts, and they
  exceed them when a key occurs twice, as in \<open>duplicate_doc\<close>.
\<close>

theorem reconcile_counts:
  "missing_count (reconcile xs ys) + matching_count (reconcile xs ys) = card (set xs)
   \<and> extra_count (reconcile xs ys) + matching_count (reconcile xs ys) = card (set ys)
   \<and> xml_total (reconcile xs ys) = length xs
   \<and> codacy_total (reconcile xs ys) = length ys
   \<and> card (set xs) \<le> xml_total (reconcile xs ys)
   \<and> card (set ys) \<le> codacy_total (reconcile xs ys)
   \<and> card (set (get_xml_rules duplicate_doc))
       < xml_total (reconcile (get_xml_rules duplicate_doc) ys)
   \<and> card (set [''S1'', ''S1''])
       < codacy_total (reconcile xs [''S1'', ''S1''])"
proof -
  have "card (set xs - set ys) + card (set xs \<inter> set ys) = card (set xs)"
    by (simp add: card_diff_inter)
  moreover have "card (set ys - set xs) + card (set xs \<inter> set ys) = card (set ys)"
    using card_diff_inter [of "set ys" "set xs"] by (simp add: Int_commute)
  ultimately show ?thesis
    unfolding reconcile_def Let_def
    by (simp add: card_length get_xml_rules_duplicate_doc)
qed

section \<open>The success rate\<close>

lemma get_xml_rules_Nil: "(get_xml_rules doc = []) = (xml_rule_keys doc = [])"
  using length_sort [of "\<lambda>x. x" "xml_rule_keys doc"]
  by (auto simp: get_xml_rules_def simp del: length_sort)

text \<open>
  C10. The verification script divides by the number of XML rule keys without a guard: the
  run ends in \<open>ZeroDivisionError\<close> exactly when the document yields no rule key, whatever
  the server replies, and yields its report and a rate exactly when there is at least one
  key. A profile without rules is a document that yields no key.
\<close>

theorem success_rate_defined:
  "(verify_main doc srv standard_id = Inl ZeroDivisionError) = (get_xml_rules doc = [])
   \<and> (\<exists>report rate. verify_main doc srv standard_id = Inr (report, rate))
       = (get_xml_rules doc \<noteq> [])
   \<and> get_xml_rules (Element ''profile'' None []) = []"
proof -
  have "get_xml_rules (Element ''profile'' None []) = []"
    by (simp add: get_xml_rules_def xml_rule_keys_def findall_below_def List.map_filter_simps)
  then show ?thesis
    by (auto simp: verify_main_def success_rate_def Let_def split: sum.splits)
qed

section \<open>Stripping the prefix\<close>

lemma py_replace_prefix:
  assumes "old \<noteq> []"
  shows "py_replace old new (old @ rest) = new @ py_replace old new rest"
proof -
  from assms obtain c cs where eq: "old @ rest = c # cs"
    by (cases old) auto
  have "take (length old) (c # cs) = old" and "drop (length old) (c # cs) = rest"
    using eq [symmetric] by simp_all
  with assms have "py_replace old new (c # cs) = new @ py_replace old new rest"
    by simp
  with eq show ?thesis by simp
qed

lemma py_replace_no_occurrence:
  "(\<And>us vs. s \<noteq> us @ old @ vs) \<Longrightarrow> py_replace old new s = s"
proof (induction s)
  case Nil
  then show ?case by simp
next
  case (Cons c cs)
  have "take (length old) (c # cs) \<noteq> old"
  proof
    assume "take (length old) (c # cs) = old"
    then have "c # cs = [] @ old @ drop (length old) (c # cs)"
      by (metis append_Nil append_take_drop_id)
    with Cons.prems show False by blast
  qed
  moreover have "py_replace old new cs = cs"
  proof (rule Cons.IH)
    fix us vs
    show "cs \<noteq> us @ old @ vs"
      using Cons.prems [of "c # us" vs] by auto
  qed
  ultimately show ?case by simp
qed

text \<open>
  Where the rest of the identifier does not hold the prefix again, the key is the
  identifier without its first twelve characters; an identifier that does not start with
  the prefix gives no key.
\<close>

lemma strip_key_prefix_once:
  assumes "\<And>us vs. rest \<noteq> us @ sonar_prefix @ vs"
  shows "strip_key (sonar_prefix @ rest) = Some rest"
proof -
  have "sonar_prefix \<noteq> []" by (simp add: sonar_prefix_def)
  then have "py_replace sonar_prefix [] (sonar_prefix @ rest) = py_replace sonar_prefix [] rest"
    by (simp add: py_replace_prefix)
  with assms show ?thesis
    by (simp add: strip_key_def startswith_def py_replace_no_occurrence)
qed

lemma strip_key_not_prefixed: "\<not> startswith pid sonar_prefix \<Longrightarrow> strip_key pid = None"
  by (simp add: strip_key_def)

text \<open>
  C5. The claim asks for the identifier with only its leading prefix removed, which for
  \<open>SonarCSharp_ASonarCSharp_B\<close> is \<open>ASonarCSharp_B\<close>. The scripts call \<open>replace\<close>, which
  removes every occurrence of the prefix, and all three retrievals accumulate \<open>AB\<close>.
\<close>

theorem strip_key_doubled_prefix:
  "strip_key ''SonarCSharp_ASonarCSharp_B'' = Some ''AB''
   \<and> drop (length sonar_prefix) ''SonarCSharp_ASonarCSharp_B'' = ''ASonarCSharp_B''
   \<and> pattern_keys [doubled_pattern] = [''AB'']
   \<and> enabled_keys [doubled_pattern] = [''AB'']
   \<and> add_rule_keys [doubled_pattern] {} = {''AB''}"
  by (simp add: strip_key_def startswith_def sonar_prefix_def pattern_keys_def enabled_keys_def
      doubled_pattern_def List.map_filter_simps)

section \<open>The unique name\<close>

text \<open>
  The counter the loop stops at, started at \<open>k\<close>: the least counter from \<open>k\<close> on whose
  candidate name is free.
\<close>

lemma find_counter_spec:
  "k \<le> find_counter ns b k
   \<and> numbered b (find_counter ns b k) \<notin> set ns
   \<and> (\<forall>j. k \<le> j \<and> j < find_counter ns b k \<longrightarrow> numbered b j \<in> set ns)"
proof (induction ns b k rule: find_counter.induct)
  case (1 ns b k)
  show ?case
  proof (cases "numbered b k \<in> set ns")
    case True
    with "1.IH" have ih: "k + 1 \<le> find_counter ns b (k + 1)"
      "numbered b (find_counter ns b (k + 1)) \<notin> set ns"
      "\<forall>j. k + 1 \<le> j \<and> j < find_counter ns b (k + 1) \<longrightarrow> numbered b j \<in> set ns"
      by simp_all
    have eq: "find_counter ns b k = find_counter ns b (k + 1)"
      using True by (subst find_counter.simps) simp
    have "\<forall>j. k \<le> j \<and> j < find_counter ns b (k + 1) \<longrightarrow> numbered b j \<in> set ns"
    proof (intro allI impI)
      fix j assume j: "k \<le> j \<and> j < find_counter ns b (k + 1)"
      show "numbered b j \<in> set ns"
      proof (cases "j = k")
        case True
        with \<open>numbered b k \<in> set ns\<close> show ?thesis by simp
      next
        case False
        with j have "k + 1 \<le> j" by simp
        with ih(3) j show ?thesis by blast
      qed
    qed
    with ih eq show ?thesis by simp
  next
    case False
    then have "find_counter ns b k = k"
      by (subst find_counter.simps) simp
    with False show ?thesis by auto
  qed
qed

text \<open>
  C8. When the existing names are retrieved, the name computed is not among them: it is the
  requested name when that is free, and otherwise \<open>name (k)\<close> for the least \<open>k\<close> from 1 on
  such that \<open>name (k)\<close> is free.
\<close>

theorem standard_name_is_free:
  assumes "standards_reply srv (length (sent st)) = Some existing_names"
  shows "fst (get_unique_standard_name srv standard_name st) \<notin> set existing_names
     \<and> (standard_name \<notin> set existing_names \<longrightarrow>
           fst (get_unique_standard_name srv standard_name st) = standard_name)
     \<and> (standard_name \<in> set existing_names \<longrightarrow>
           (\<exists>k\<ge>1. fst (get_unique_standard_name srv standard_name st)
                     = standard_name @ '' ('' @ str_nat k @ '')''
                \<and> standard_name @ '' ('' @ str_nat k @ '')'' \<notin> set existing_names
                \<and> (\<forall>j. 1 \<le> j \<and> j < k \<longrightarrow>
                       standard_name @ '' ('' @ str_nat j @ '')'' \<in> set existing_names)))"
proof (cases "standard_name \<in> set existing_names")
  case False
  with assms show ?thesis
    by (simp add: get_unique_standard_name_def Let_def)
next
  case True
  let ?k = "find_counter existing_names standard_name 1"
  from assms True have res: "fst (get_unique_standard_name srv standard_name st)
      = numbered standard_name ?k"
    by (simp add: get_unique_standard_name_def Let_def)
  from find_counter_spec [of 1 existing_names standard_name]
  have "1 \<le> ?k" and "numbered standard_name ?k \<notin> set existing_names"
    and "\<forall>j. 1 \<le> j \<and> j < ?k \<longrightarrow> numbered standard_name j \<in> set existing_names"
    by simp_all
  with res True show ?thesis
    unfolding numbered_def by auto
qed

theorem standard_name_is_free_witness:
  "standards_reply names_server (length (sent init_state)) = Some [''Std'', ''Std (1)'']
   \<and> ''Std'' \<in> set [''Std'', ''Std (1)'']
   \<and> fst (get_unique_standard_name names_server ''Std'' init_state) = ''Std (2)''
   \<and> fst (get_unique_standard_name names_server ''Std'' init_state) \<notin> set [''Std'', ''Std (1)'']
   \<and> ''New'' \<notin> set [''Std'', ''Std (1)'']
   \<and> fst (get_unique_standard_name names_server ''New'' init_state) = ''New''"
proof -
  have reply: "standards_reply names_server (length (sent init_state)) = Some [''Std'', ''Std (1)'']"
    by (simp add: names_server_def failing_server_def)
  have "find_counter [''Std'', ''Std (1)''] ''Std'' 1 = 2"
    by code_simp
  moreover have "numbered ''Std'' 2 = ''Std (2)''"
    by code_simp
  ultimately have "fst (get_unique_standard_name names_server ''Std'' init_state) = ''Std (2)''"
    using reply by (simp add: get_unique_standard_name_def Let_def)
  with reply standard_name_is_free [OF reply, of "''Std''"]
    standard_name_is_free [OF reply, of "''New''"]
  show ?thesis
    by simp
qed

section \<open>Pagination\<close>

lemma truthy_idem: "truthy (if truthy c then c else None) = truthy c"
  by (simp add: truthy_def)

lemma chain_cursor_norm:
  "chain_cursor srv uuid n (if truthy c then c else None) k = chain_cursor srv uuid n c k"
  by (induction k) (simp_all add: truthy_def)

lemma chain_cursor_shift:
  assumes "patterns_reply srv n uuid (if truthy c then c else None) = Some pg"
  shows "chain_cursor srv uuid n c (Suc k) = chain_cursor srv uuid (Suc n) (page_cursor pg) k"
  using assms by (induction k) simp_all

lemma chain_reply_shift:
  assumes "patterns_reply srv n uuid (if truthy c then c else None) = Some pg"
  shows "chain_reply srv uuid n c (Suc k) = chain_reply srv uuid (Suc n) (page_cursor pg) k"
  using chain_cursor_shift [OF assms] by (simp add: chain_reply_def)

lemma chain_reply_0:
  "chain_reply srv uuid n c 0 = patterns_reply srv n uuid (if truthy c then c else None)"
  by (simp add: chain_reply_def)

text \<open>
  A loop that meets no ending reply among its first \<open>fuel\<close> replies is still running
  after \<open>fuel\<close> requests.
\<close>

lemma paginate_out_of_fuel:
  "(\<And>j. j < fuel \<Longrightarrow> \<not> last_reply (chain_reply srv uuid (length (sent st)) c j))
   \<Longrightarrow> fst (paginate fuel srv uuid add_page msg c acc st) = OutOfFuel"
proof (induction fuel arbitrary: c acc st)
  case 0
  then show ?case by simp
next
  case (Suc fuel)
  let ?n = "length (sent st)"
  from Suc.prems [of 0] obtain pg where
    pg: "patterns_reply srv ?n uuid (if truthy c then c else None) = Some pg"
    and more: "truthy (page_cursor pg)"
    by (auto simp: last_reply_def chain_reply_0 split: option.splits)
  let ?st1 = "send (GetPatterns uuid (if truthy c then c else None)) st"
  have len: "length (sent ?st1) = Suc ?n" by (simp add: send_def)
  have "fst (paginate fuel srv uuid add_page msg (page_cursor pg) (add_page (page_data pg) acc) ?st1)
      = OutOfFuel"
  proof (rule Suc.IH)
    fix j assume "j < fuel"
    then have "\<not> last_reply (chain_reply srv uuid ?n c (Suc j))"
      using Suc.prems [of "Suc j"] by simp
    then show "\<not> last_reply (chain_reply srv uuid (length (sent ?st1)) (page_cursor pg) j)"
      by (simp add: chain_reply_shift [OF pg] len)
  qed
  with pg more show ?case by (simp add: Let_def)
qed

text \<open>
  When the \<open>K\<close>-th reply is the first that ends the loop, the loop returns with any bound
  above \<open>K\<close>: it has sent \<open>K + 1\<close> requests, each with the cursor of the reply before it,
  its result adds the pages of all the replies to the set, and it has printed its message
  exactly when the last request failed.
\<close>

lemma paginate_result:
  assumes "last_reply (chain_reply srv uuid (length (sent st)) c K)"
    and "\<And>j. j < K \<Longrightarrow> \<not> last_reply (chain_reply srv uuid (length (sent st)) c j)"
    and "K < fuel"
  shows "fst (paginate fuel srv uuid add_page msg c acc st)
           = Ok (fold (\<lambda>k. add_reply add_page (chain_reply srv uuid (length (sent st)) c k))
                   [0..<Suc K] acc)
       \<and> sent (snd (paginate fuel srv uuid add_page msg c acc st))
           = sent st @ map (\<lambda>k. GetPatterns uuid (chain_cursor srv uuid (length (sent st)) c k))
                         [0..<Suc K]
       \<and> printed (snd (paginate fuel srv uuid add_page msg c acc st))
           = printed st @ (if chain_reply srv uuid (length (sent st)) c K = None then [msg] else [])"
  using assms
proof (induction K arbitrary: fuel c acc st)
  case 0
  then obtain f where fuel: "fuel = Suc f" by (cases fuel) auto
  from "0.prems"(1) show ?case
    unfolding fuel
    by (auto simp: Let_def last_reply_def chain_reply_0 add_reply_def send_def print_def
        split: option.splits)
next
  case (Suc K)
  let ?n = "length (sent st)"
  from Suc.prems(3) obtain f where fuel: "fuel = Suc f" and f: "K < f" by (cases fuel) auto
  from Suc.prems(2) [of 0] obtain pg where
    pg: "patterns_reply srv ?n uuid (if truthy c then c else None) = Some pg"
    and more: "truthy (page_cursor pg)"
    by (auto simp: last_reply_def chain_reply_0 split: option.splits)
  let ?st1 = "send (GetPatterns uuid (if truthy c then c else None)) st"
  let ?acc1 = "add_page (page_data pg) acc"
  have len: "length (sent ?st1) = Suc ?n" by (simp add: send_def)
  have step: "paginate fuel srv uuid add_page msg c acc st
      = paginate f srv uuid add_page msg (page_cursor pg) ?acc1 ?st1"
    unfolding fuel using pg more by (simp add: Let_def)
  have last: "last_reply (chain_reply srv uuid (length (sent ?st1)) (page_cursor pg) K)"
    using Suc.prems(1) by (simp add: chain_reply_shift [OF pg] len)
  have before: "\<And>j. j < K \<Longrightarrow>
      \<not> last_reply (chain_reply srv uuid (length (sent ?st1)) (page_cursor pg) j)"
  proof -
    fix j assume "j < K"
    then have "\<not> last_reply (chain_reply srv uuid ?n c (Suc j))"
      using Suc.prems(2) [of "Suc j"] by simp
    then show "\<not> last_reply (chain_reply srv uuid (length (sent ?st1)) (page_cursor pg) j)"
      by (simp add: chain_reply_shift [OF pg] len)
  qed
  note ih = Suc.IH [OF last before f, where acc = ?acc1]
  have idx: "[0..<Suc (Suc K)] = 0 # map Suc [0..<Suc K]"
    by (metis map_Suc_upt upt_conv_Cons zero_less_Suc)
  have r0: "add_reply add_page (chain_reply srv uuid ?n c 0) acc = ?acc1"
    by (simp add: add_reply_def chain_reply_0 pg)
  have c0: "chain_cursor srv uuid ?n c 0 = (if truthy c then c else None)" by simp
  show ?case
    unfolding step
    apply (simp only: ih idx list.map fold_simps fold_map comp_def r0 c0 map_map
        chain_reply_shift [OF pg] chain_cursor_shift [OF pg] len)
    apply (simp add: send_def print_def)
    done
qed

lemma add_pattern_ids_union: "add_pattern_ids ps acc = acc \<union> page_ids ps"
  by (induction ps arbitrary: acc) (auto simp: page_ids_def split: option.splits)

lemma fold_add_reply_union:
  "fold (\<lambda>k. add_reply add_pattern_ids (r k)) ks acc = acc \<union> (\<Union>k\<in>set ks. reply_ids (r k))"
  by (induction ks arbitrary: acc)
    (auto simp: add_reply_def reply_ids_def add_pattern_ids_union split: option.splits)

text \<open>Every chain of replies with an ending reply makes the loop return.\<close>

lemma paginate_terminates:
  assumes "last_reply (chain_reply srv uuid (length (sent st)) c K)"
  shows "\<exists>r. \<forall>fuel>K. fst (paginate fuel srv uuid add_page msg c acc st) = Ok r"
proof -
  let ?last = "\<lambda>k. last_reply (chain_reply srv uuid (length (sent st)) c k)"
  let ?K = "LEAST k. ?last k"
  from assms have last: "?last ?K" by (rule LeastI)
  from assms have le: "?K \<le> K" by (rule Least_le)
  have before: "\<And>j. j < ?K \<Longrightarrow> \<not> ?last j" by (rule not_less_Least)
  show ?thesis
  proof (intro exI allI impI)
    fix fuel assume "K < fuel"
    with le have "?K < fuel" by simp
    from paginate_result [OF last before this]
    show "fst (paginate fuel srv uuid add_page msg c acc st)
        = Ok (fold (\<lambda>k. add_reply add_page (chain_reply srv uuid (length (sent st)) c k))
               [0..<Suc ?K] acc)"
      by simp
  qed
qed

text \<open>
  For the importer's retrieval, the result is the union of the pattern ids of the pages
  retrieved.
\<close>

lemma available_patterns_union:
  assumes "last_reply (chain_reply srv sonar_uuid (length (sent st)) None K)"
    and "\<And>j. j < K \<Longrightarrow> \<not> last_reply (chain_reply srv sonar_uuid (length (sent st)) None j)"
    and "K < fuel"
  shows "fst (get_available_patterns fuel srv st)
           = Ok (\<Union>k\<le>K. reply_ids (chain_reply srv sonar_uuid (length (sent st)) None k))
       \<and> sent (snd (get_available_patterns fuel srv st))
           = sent st @ map (\<lambda>k. GetPatterns sonar_uuid
                                  (chain_cursor srv sonar_uuid (length (sent st)) None k))
                         [0..<Suc K]"
proof -
  have "{0..<Suc K} = {..K}" by auto
  with paginate_result [OF assms, of add_pattern_ids WarningAvailablePatterns "{}"]
  show ?thesis
    by (simp add: get_available_patterns_def fold_add_reply_union del: upt_Suc)
qed

text \<open>
  C3. The claim asks every pattern retrieval to follow the cursor of each reply. On a
  server with two pages, the retrievals of the importer and of \<open>get_default_patterns.py\<close>
  send two requests, the second with the cursor of the first page, and return the patterns
  of both pages. \<open>get_codacy_patterns\<close> of \<open>check_missing_rules.py\<close> sends one request,
  never reads the cursor, and returns the first page only.
\<close>

theorem first_page_only:
  "get_codacy_patterns two_page_server init_state
     = (Inr [''S1''], \<lparr>sent = [GetPatterns sonar_uuid None], printed = []\<rparr>)
   \<and> get_all_sonarc_patterns 3 two_page_server init_state
     = (Ok {''S1'', ''S2''},
        \<lparr>sent = [GetPatterns sonar_uuid None, GetPatterns sonar_uuid (Some ''c1'')],
         printed = []\<rparr>)
   \<and> get_available_patterns 3 two_page_server init_state
     = (Ok {''SonarCSharp_S1'', ''SonarCSharp_S2''},
        \<lparr>sent = [GetPatterns sonar_uuid None, GetPatterns sonar_uuid (Some ''c1'')],
         printed = []\<rparr>)"
  by (simp add: get_codacy_patterns_def get_all_sonarc_patterns_def get_available_patterns_def
      two_page_server_def failing_server_def init_state_def send_def print_def numeral_3_eq_3
      truthy_def Let_def pattern_keys_def List.map_filter_simps strip_key_def startswith_def
      sonar_prefix_def insert_commute)

section \<open>The order of the configuration steps\<close>



lemma steps_of_single: "steps_of [req] = (case step_of req of None \<Rightarrow> [] | Some s \<Rightarrow> [s])"
  by (simp add: steps_of_def List.map_filter_simps split: option.splits)





lemma adds_send_none: "step_of req = None \<Longrightarrow> adds st lo hi (send req st)"
  by (simp add: adds_def send_def steps_of_single)




































section \<open>Failed requests\<close>

lemma calm_refl: "calm st st"
  by (simp add: calm_def)

lemma calm_trans: "calm st st1 \<Longrightarrow> calm st1 st2 \<Longrightarrow> calm st st2"
  by (fastforce simp: calm_def)

lemma calm_send: "calm st st1 \<Longrightarrow> calm st (send req st1)"
  by (simp add: calm_def send_def)

lemma calm_print: "calm st st1 \<Longrightarrow> \<not> fatal m \<Longrightarrow> calm st (print m st1)"
  by (auto simp: calm_def print_def)

lemma handled_Ok: "calm st st1 \<Longrightarrow> handled st (Ok x, st1)"
  by (simp add: handled_def calm_def)

lemma handled_OutOfFuel: "calm st st1 \<Longrightarrow> handled st (OutOfFuel, st1)"
  by (simp add: handled_def calm_def)

lemma handled_Exit: "calm st st1 \<Longrightarrow> fatal m \<Longrightarrow> handled st (Exit (Suc 0), print m st1)"
  by (auto simp: handled_def calm_def print_def)

lemma handled_not_Exit: "calm st (snd r) \<Longrightarrow> (\<And>n. fst r \<noteq> Exit n) \<Longrightarrow> handled st r"
  by (cases r, cases "fst r") (auto simp: handled_def calm_def)

lemma handled_calm: "handled st r \<Longrightarrow> fst r = Ok x \<Longrightarrow> calm st (snd r)"
  by (auto simp: handled_def calm_def)

lemma handled_calm_start:
  assumes "calm st st1" and "handled st1 r"
  shows "handled st r"
proof -
  from assms(1) obtain ms1 where m1: "printed st1 = printed st @ ms1" "\<not> list_ex fatal ms1"
    by (auto simp: calm_def)
  from assms(2) obtain ms2 where m2: "printed (snd r) = printed st1 @ ms2"
    and c: "case fst r of
               Exit n \<Rightarrow> n = 1 \<and> ms2 \<noteq> [] \<and> fatal (last ms2) \<and> \<not> list_ex fatal (butlast ms2)
             | OutOfFuel \<Rightarrow> \<not> list_ex fatal ms2
             | Ok x \<Rightarrow> \<not> list_ex fatal ms2"
    by (auto simp: handled_def)
  have "printed (snd r) = printed st @ (ms1 @ ms2)" using m1 m2 by simp
  moreover have "case fst r of
               Exit n \<Rightarrow> n = 1 \<and> ms1 @ ms2 \<noteq> [] \<and> fatal (last (ms1 @ ms2))
                  \<and> \<not> list_ex fatal (butlast (ms1 @ ms2))
             | OutOfFuel \<Rightarrow> \<not> list_ex fatal (ms1 @ ms2)
             | Ok x \<Rightarrow> \<not> list_ex fatal (ms1 @ ms2)"
    using c m1(2) by (cases "fst r") (auto simp: butlast_append list_ex_iff)
  ultimately show ?thesis unfolding handled_def by blast
qed

lemma handled_then_do:
  assumes "handled st r" and "\<And>x st1. r = (Ok x, st1) \<Longrightarrow> handled st1 (f x st1)"
  shows "handled st (then_do r f)"
proof (cases r)
  case (Pair out st1)
  show ?thesis
  proof (cases out)
    case (Ok x)
    with Pair assms(1) have "calm st st1" by (auto dest: handled_calm)
    moreover from Pair Ok assms(2) have "handled st1 (f x st1)" by simp
    ultimately have "handled st (f x st1)" by (rule handled_calm_start)
    with Pair Ok show ?thesis by (simp add: then_do_def)
  next
    case (Exit n)
    with Pair assms(1) show ?thesis by (simp add: then_do_def handled_def)
  next
    case OutOfFuel
    with Pair assms(1) show ?thesis by (simp add: then_do_def handled_def)
  qed
qed

lemma paginate_no_exit: "fst (paginate fuel srv uuid add_page msg c acc st) \<noteq> Exit n"
  by (induction fuel arbitrary: c acc st) (auto simp: Let_def split: option.splits)

lemma calm_paginate:
  "\<not> fatal msg \<Longrightarrow> calm st (snd (paginate fuel srv uuid add_page msg c acc st))"
proof (induction fuel arbitrary: c acc st)
  case 0
  show ?case by (simp add: calm_refl)
next
  case (Suc fuel)
  let ?st1 = "send (GetPatterns uuid (if truthy c then c else None)) st"
  have one: "calm st ?st1" by (simp add: calm_send calm_refl)
  show ?case
  proof (cases "patterns_reply srv (length (sent st)) uuid (if truthy c then c else None)")
    case None
    with one Suc.prems show ?thesis by (simp add: Let_def calm_print)
  next
    case (Some pg)
    show ?thesis
    proof (cases "truthy (page_cursor pg)")
      case False
      with Some one show ?thesis by (simp add: Let_def)
    next
      case True
      have "calm ?st1
          (snd (paginate fuel srv uuid add_page msg (page_cursor pg) (add_page (page_data pg) acc) ?st1))"
        using Suc.prems by (rule Suc.IH)
      with one have "calm st
          (snd (paginate fuel srv uuid add_page msg (page_cursor pg) (add_page (page_data pg) acc) ?st1))"
        by (rule calm_trans)
      with Some True show ?thesis by (simp add: Let_def)
    qed
  qed
qed

lemma handled_paginate:
  "\<not> fatal msg \<Longrightarrow> handled st (paginate fuel srv uuid add_page msg c acc st)"
  by (rule handled_not_Exit) (simp_all add: calm_paginate paginate_no_exit)

lemma handled_get_available_patterns: "handled st (get_available_patterns fuel srv st)"
  by (simp add: get_available_patterns_def handled_paginate)

lemma handled_get_all_tool_patterns: "handled st (get_all_tool_patterns fuel srv uuid st)"
  by (simp add: get_all_tool_patterns_def handled_paginate)

lemma handled_get_tools: "handled st (get_tools srv st)"
  by (auto simp: get_tools_def Let_def calm_send calm_refl intro: handled_Exit handled_Ok
      split: option.splits)

lemma calm_get_unique_standard_name:
  "calm st (snd (get_unique_standard_name srv standard_name st))"
  by (auto simp: get_unique_standard_name_def Let_def calm_send calm_refl calm_print
      split: option.splits)

lemma handled_create: "handled st (create_coding_standard srv standard_name st)"
proof -
  obtain final_name st1 where u: "get_unique_standard_name srv standard_name st = (final_name, st1)"
    by (cases "get_unique_standard_name srv standard_name st")
  with calm_get_unique_standard_name [of st srv standard_name] have "calm st st1" by simp
  then have "calm st (send (PostStandard final_name) st1)" by (rule calm_send)
  with u show ?thesis
    by (auto simp: create_coding_standard_def Let_def intro: handled_Exit handled_Ok
        split: option.splits)
qed

lemma calm_disable_tool: "calm st (disable_tool srv standard_id uuid st)"
  by (simp add: disable_tool_def Let_def calm_send calm_refl calm_print)

lemma calm_disable_tools: "calm st (disable_tools srv standard_id tools st)"
proof (induction tools arbitrary: st)
  case Nil
  show ?case by (simp add: calm_refl)
next
  case (Cons t ts)
  let ?st1 = "case tool_uuid t of None \<Rightarrow> st
                | Some u \<Rightarrow> if u \<noteq> [] then disable_tool srv standard_id u st else st"
  have "calm st ?st1"
    by (simp add: calm_refl calm_disable_tool split: option.splits)
  moreover have "calm ?st1 (disable_tools srv standard_id ts ?st1)"
    by (rule Cons.IH)
  ultimately have "calm st (disable_tools srv standard_id ts ?st1)"
    by (rule calm_trans)
  then show ?case by simp
qed

lemma handled_disable_all: "handled st (disable_all_tools srv standard_id st)"
proof (cases "standard_tools_reply srv (length (sent st)) standard_id")
  case None
  then show ?thesis
    by (simp add: disable_all_tools_def Let_def handled_Exit calm_send calm_refl)
next
  case (Some tools)
  have "calm st (send (GetStandardTools standard_id) st)"
    by (simp add: calm_send calm_refl)
  from this calm_disable_tools
  have "calm st (disable_tools srv standard_id tools (send (GetStandardTools standard_id) st))"
    by (rule calm_trans)
  with Some show ?thesis by (simp add: disable_all_tools_def Let_def handled_Ok)
qed

lemma handled_enable_tool_patterns:
  "handled st (enable_tool_patterns fuel srv standard_id uuid patterns st)"
  unfolding enable_tool_patterns_def
  by (rule handled_then_do)
    (auto simp: handled_get_all_tool_patterns Let_def calm_send calm_refl calm_print
      intro!: handled_Ok)

lemma handled_enable_tools:
  "handled st (enable_tools fuel srv tool_uuids standard_id tool_patterns st)"
proof (induction tool_patterns arbitrary: st)
  case Nil
  show ?case by (simp add: handled_Ok calm_refl)
next
  case (Cons item rest)
  obtain name patterns where item: "item = (name, patterns)" by (cases item)
  show ?case
  proof (cases "truthy (tool_uuids (lower name))")
    case False
    have "calm st (print (WarningNoTool name) st)"
      by (simp add: calm_print calm_refl)
    moreover have "handled (print (WarningNoTool name) st)
        (enable_tools fuel srv tool_uuids standard_id rest (print (WarningNoTool name) st))"
      by (rule Cons.IH)
    ultimately have "handled st
        (enable_tools fuel srv tool_uuids standard_id rest (print (WarningNoTool name) st))"
      by (rule handled_calm_start)
    with False item show ?thesis by simp
  next
    case True
    have "handled st
        (then_do
           (enable_tool_patterns fuel srv standard_id (the (tool_uuids (lower name))) patterns st)
           (\<lambda>success st1. enable_tools fuel srv tool_uuids standard_id rest st1))"
      by (rule handled_then_do) (simp_all add: handled_enable_tool_patterns Cons.IH)
    with True item show ?thesis by simp
  qed
qed

lemma handled_enable_sonar_rules:
  "handled st (enable_sonar_rules fuel srv tool_uuids rules standard_id st)"
  unfolding enable_sonar_rules_def map_sonar_rules_to_codacy_patterns_def
  by (intro handled_then_do handled_get_available_patterns handled_enable_tools)
    (simp add: handled_Ok calm_refl)

lemma handled_promote: "handled st (promote_coding_standard srv standard_id st)"
  by (simp add: promote_coding_standard_def Let_def handled_Exit handled_Ok calm_send calm_refl)

lemma handled_generate: "handled st (generate_output_files fuel srv rules st)"
  unfolding generate_output_files_def
  by (intro handled_then_do handled_get_available_patterns) (simp add: handled_Ok calm_refl)

lemma handled_run: "handled st (run fuel srv standard_name doc st)"
proof (cases "parse_sonar_xml doc")
  case (Inl e)
  then show ?thesis by (simp add: run_def handled_Exit calm_refl)
next
  case (Inr rules)
  then show ?thesis
    unfolding run_def
    apply simp
    apply (intro handled_then_do handled_get_tools handled_create handled_disable_all
        handled_enable_sonar_rules handled_promote handled_generate
        handled_get_available_patterns)
    apply (simp add: handled_Ok calm_refl)
    done
qed

lemma fatal_iff:
  "fatal m \<longleftrightarrow> m \<in> {UnexpectedError, ErrorRetrievingTools, ErrorCreatingStandard,
                     ErrorRetrievingStandardTools, ErrorPromoting}"
  by (cases m) simp_all


subsection \<open>A failed page and a failed PATCH in the loops\<close>

lemma paginate_failure:
  assumes "chain_reply srv uuid (length (sent st)) None K = None"
    and "\<And>j. j < K \<Longrightarrow> \<not> last_reply (chain_reply srv uuid (length (sent st)) None j)"
    and "K < fuel"
  shows "fst (paginate fuel srv uuid add_pattern_ids msg None {} st)
           = Ok (\<Union>k<K. reply_ids (chain_reply srv uuid (length (sent st)) None k))
       \<and> printed (snd (paginate fuel srv uuid add_pattern_ids msg None {} st))
           = printed st @ [msg]"
proof -
  have last: "last_reply (chain_reply srv uuid (length (sent st)) None K)"
    using assms(1) by (simp add: last_reply_def)
  have "(\<Union>k\<in>set [0..<Suc K]. reply_ids (chain_reply srv uuid (length (sent st)) None k))
      = (\<Union>k<K. reply_ids (chain_reply srv uuid (length (sent st)) None k))
        \<union> reply_ids (chain_reply srv uuid (length (sent st)) None K)"
    by (auto simp: less_Suc_eq)
  also have "\<dots> = (\<Union>k<K. reply_ids (chain_reply srv uuid (length (sent st)) None k))"
    using assms(1) by (simp add: reply_ids_def)
  finally have u: "(\<Union>k\<in>set [0..<Suc K]. reply_ids (chain_reply srv uuid (length (sent st)) None k))
      = (\<Union>k<K. reply_ids (chain_reply srv uuid (length (sent st)) None k))" .
  from paginate_result [OF last assms(2) assms(3), of add_pattern_ids msg "{}"] assms(1)
  show ?thesis
    by (simp only: fold_add_reply_union u Un_empty_left if_True simp_thms)
qed

lemma disabled_uuids_Nil: "disabled_uuids [] = []"
  by (simp add: disabled_uuids_def List.map_filter_simps)

lemma disabled_uuids_Cons:
  "disabled_uuids (t # ts) =
     (case tool_uuid t of None \<Rightarrow> disabled_uuids ts
      | Some u \<Rightarrow> if u \<noteq> [] then u # disabled_uuids ts else disabled_uuids ts)"
  by (simp add: disabled_uuids_def List.map_filter_simps split: option.splits)

lemma disable_tool_state:
  "disable_tool srv standard_id u st =
     \<lparr>sent = sent st @ [PatchTool standard_id u \<lparr>payload_enabled = False, payload_patterns = []\<rparr>],
      printed = printed st @ map WarningDisableTool (failed_disables srv standard_id (length (sent st)) [u])\<rparr>"
  by (simp add: disable_tool_def Let_def send_def print_def)

lemma disable_tools_state:
  "disable_tools srv standard_id tools st =
     \<lparr>sent = sent st @ map (\<lambda>u. PatchTool standard_id u
                                  \<lparr>payload_enabled = False, payload_patterns = []\<rparr>)
                           (disabled_uuids tools),
      printed = printed st @ map WarningDisableTool
                  (failed_disables srv standard_id (length (sent st)) (disabled_uuids tools))\<rparr>"
proof (induction tools arbitrary: st)
  case Nil
  show ?case by (simp add: disabled_uuids_Nil)
next
  case (Cons t ts)
  show ?case
  proof (cases "tool_uuid t")
    case None
    then show ?thesis by (simp add: Cons.IH disabled_uuids_Cons)
  next
    case (Some u)
    show ?thesis
    proof (cases "u = []")
      case True
      with Some show ?thesis by (simp add: Cons.IH disabled_uuids_Cons)
    next
      case False
      with Some show ?thesis
        by (simp add: Cons.IH disabled_uuids_Cons disable_tool_state)
    qed
  qed
qed

lemma disable_all_tools_continues:
  assumes "standard_tools_reply srv (length (sent st)) standard_id = Some tools"
  shows "disable_all_tools srv standard_id st =
     (Ok (),
      \<lparr>sent = sent st @ GetStandardTools standard_id
                # map (\<lambda>u. PatchTool standard_id u
                               \<lparr>payload_enabled = False, payload_patterns = []\<rparr>)
                    (disabled_uuids tools),
       printed = printed st @ map WarningDisableTool
                  (failed_disables srv standard_id (Suc (length (sent st)))
                     (disabled_uuids tools))\<rparr>)"
  using assms by (simp add: disable_all_tools_def Let_def disable_tools_state send_def)

subsection \<open>The errors of the sequence\<close>

lemma omits_refl: "omits st st"
  by (simp add: omits_def)

lemma omits_trans: "omits st st1 \<Longrightarrow> omits st1 st2 \<Longrightarrow> omits st st2"
  by (fastforce simp: omits_def)

lemma omits_send: "omits st st1 \<Longrightarrow> omits st (send req st1)"
  by (simp add: omits_def send_def)

lemma omits_print: "omits st st1 \<Longrightarrow> \<not> early m \<Longrightarrow> omits st (print m st1)"
  by (auto simp: omits_def print_def)

lemma omits_then_do:
  assumes "omits st (snd r)" and "\<And>x st1. r = (Ok x, st1) \<Longrightarrow> omits st1 (snd (f x st1))"
  shows "omits st (snd (then_do r f))"
proof (cases r)
  case (Pair out st1)
  with assms show ?thesis
    by (cases out) (auto simp: then_do_def intro: omits_trans)
qed

lemma omits_paginate:
  "\<not> early msg \<Longrightarrow> omits st (snd (paginate fuel srv uuid add_page msg c acc st))"
proof (induction fuel arbitrary: c acc st)
  case 0
  show ?case by (simp add: omits_refl)
next
  case (Suc fuel)
  let ?st1 = "send (GetPatterns uuid (if truthy c then c else None)) st"
  have one: "omits st ?st1" by (simp add: omits_send omits_refl)
  show ?case
  proof (cases "patterns_reply srv (length (sent st)) uuid (if truthy c then c else None)")
    case None
    with one Suc.prems show ?thesis by (simp add: Let_def omits_print)
  next
    case (Some pg)
    show ?thesis
    proof (cases "truthy (page_cursor pg)")
      case False
      with Some one show ?thesis by (simp add: Let_def)
    next
      case True
      have "omits ?st1
          (snd (paginate fuel srv uuid add_page msg (page_cursor pg) (add_page (page_data pg) acc) ?st1))"
        using Suc.prems by (rule Suc.IH)
      with one have "omits st
          (snd (paginate fuel srv uuid add_page msg (page_cursor pg) (add_page (page_data pg) acc) ?st1))"
        by (rule omits_trans)
      with Some True show ?thesis by (simp add: Let_def)
    qed
  qed
qed

lemma omits_get_available_patterns: "omits st (snd (get_available_patterns fuel srv st))"
  by (simp add: get_available_patterns_def omits_paginate)

lemma omits_get_all_tool_patterns: "omits st (snd (get_all_tool_patterns fuel srv uuid st))"
  by (simp add: get_all_tool_patterns_def omits_paginate)

lemma omits_create: "omits st (snd (create_coding_standard srv standard_name st))"
  by (auto simp: create_coding_standard_def get_unique_standard_name_def Let_def
      omits_send omits_print omits_refl split: option.splits prod.splits if_splits)

lemma omits_disable_all: "omits st (snd (disable_all_tools srv standard_id st))"
proof (cases "standard_tools_reply srv (length (sent st)) standard_id")
  case None
  then show ?thesis
    by (simp add: disable_all_tools_def Let_def omits_send omits_print omits_refl)
next
  case (Some tools)
  have "\<not> list_ex early (map WarningDisableTool
      (failed_disables srv standard_id (Suc (length (sent st))) (disabled_uuids tools)))"
    by (simp add: list_ex_iff)
  then show ?thesis
    unfolding disable_all_tools_continues [OF Some] omits_def by simp
qed

lemma omits_enable_tool_patterns:
  "omits st (snd (enable_tool_patterns fuel srv standard_id uuid patterns st))"
  unfolding enable_tool_patterns_def
  by (rule omits_then_do)
    (auto simp: omits_get_all_tool_patterns Let_def omits_send omits_refl omits_print)

lemma omits_enable_tools:
  "omits st (snd (enable_tools fuel srv tool_uuids standard_id tool_patterns st))"
proof (induction tool_patterns arbitrary: st)
  case Nil
  show ?case by (simp add: omits_refl)
next
  case (Cons item rest)
  obtain name patterns where item: "item = (name, patterns)" by (cases item)
  show ?case
  proof (cases "truthy (tool_uuids (lower name))")
    case False
    have "omits st (print (WarningNoTool name) st)"
      by (simp add: omits_print omits_refl)
    moreover have "omits (print (WarningNoTool name) st)
        (snd (enable_tools fuel srv tool_uuids standard_id rest (print (WarningNoTool name) st)))"
      by (rule Cons.IH)
    ultimately have "omits st
        (snd (enable_tools fuel srv tool_uuids standard_id rest (print (WarningNoTool name) st)))"
      by (rule omits_trans)
    with False item show ?thesis by simp
  next
    case True
    have "omits st
        (snd (then_do
           (enable_tool_patterns fuel srv standard_id (the (tool_uuids (lower name))) patterns st)
           (\<lambda>success st1. enable_tools fuel srv tool_uuids standard_id rest st1)))"
      by (rule omits_then_do) (simp_all add: omits_enable_tool_patterns Cons.IH)
    with True item show ?thesis by simp
  qed
qed

lemma omits_enable_sonar_rules:
  "omits st (snd (enable_sonar_rules fuel srv tool_uuids rules standard_id st))"
  unfolding enable_sonar_rules_def map_sonar_rules_to_codacy_patterns_def
  by (intro omits_then_do omits_get_available_patterns omits_enable_tools)
    (simp add: omits_refl)

lemma omits_promote: "omits st (snd (promote_coding_standard srv standard_id st))"
  by (simp add: promote_coding_standard_def Let_def omits_send omits_print omits_refl)

lemma omits_generate: "omits st (snd (generate_output_files fuel srv rules st))"
  unfolding generate_output_files_def
  by (intro omits_then_do omits_get_available_patterns) (simp add: omits_refl)

text \<open>The run after the tools are listed.\<close>

lemma run_after_tools:
  assumes "parse_sonar_xml doc = Inr rules"
    and "tools_reply srv (length (sent st)) = Some tools"
  shows "omits st (snd (run fuel srv standard_name doc st))"
proof -
  have tools: "get_tools srv st = (Ok (store_tool_uuids tools Map.empty), send GetTools st)"
    using assms(2) by (simp add: get_tools_def Let_def)
  have start: "omits st (send GetTools st)"
    by (simp add: omits_send omits_refl)
  show ?thesis
    unfolding run_def
    apply (simp add: assms(1) tools)
    apply (subst then_do_def)
    apply simp
    apply (rule omits_trans [OF start])
    apply (intro omits_then_do omits_create omits_disable_all
        omits_enable_sonar_rules omits_promote omits_generate omits_get_available_patterns)
    apply (simp add: omits_refl)
    done
qed

lemma then_do_no_exit:
  assumes "\<And>n. fst r \<noteq> Exit n" and "\<And>x st1 n. fst (f x st1) \<noteq> Exit n"
  shows "fst (then_do r f) \<noteq> Exit n"
proof (cases r)
  case (Pair out st1)
  with assms show ?thesis
    by (cases out) (auto simp: then_do_def)
qed

lemma enable_tool_patterns_no_exit:
  "fst (enable_tool_patterns fuel srv standard_id uuid patterns st) \<noteq> Exit n"
  unfolding enable_tool_patterns_def
  by (rule then_do_no_exit) (simp_all add: get_all_tool_patterns_def paginate_no_exit Let_def)

lemma enable_tools_no_exit:
  "fst (enable_tools fuel srv tool_uuids standard_id tool_patterns st) \<noteq> Exit n"
proof (induction tool_patterns arbitrary: st n)
  case Nil
  show ?case by simp
next
  case (Cons item rest)
  obtain name patterns where item: "item = (name, patterns)" by (cases item)
  show ?case
  proof (cases "truthy (tool_uuids (lower name))")
    case False
    with item Cons.IH show ?thesis by simp
  next
    case True
    have "fst (then_do
           (enable_tool_patterns fuel srv standard_id (the (tool_uuids (lower name))) patterns st)
           (\<lambda>success st1. enable_tools fuel srv tool_uuids standard_id rest st1)) \<noteq> Exit n"
      by (rule then_do_no_exit) (simp_all add: enable_tool_patterns_no_exit Cons.IH)
    with True item show ?thesis by simp
  qed
qed

lemma enable_sonar_rules_no_exit:
  "fst (enable_sonar_rules fuel srv tool_uuids rules standard_id st) \<noteq> Exit n"
  unfolding enable_sonar_rules_def map_sonar_rules_to_codacy_patterns_def
  by (intro then_do_no_exit)
    (simp_all add: get_available_patterns_def paginate_no_exit enable_tools_no_exit)

lemma generate_no_exit: "fst (generate_output_files fuel srv rules st) \<noteq> Exit n"
  unfolding generate_output_files_def
  by (intro then_do_no_exit) (simp_all add: get_available_patterns_def paginate_no_exit)

lemma run_no_exit:
  assumes "parse_sonar_xml doc = Inr rules"
    and "\<And>k. tools_reply srv k \<noteq> None"
    and "\<And>k name. create_reply srv k name \<noteq> None"
    and "\<And>k s. standard_tools_reply srv k s \<noteq> None"
    and "\<And>k s. promote_reply srv k s"
  shows "fst (run fuel srv standard_name doc st) \<noteq> Exit n"
proof -
  have tools: "\<And>st n. fst (get_tools srv st) \<noteq> Exit n"
    by (simp add: get_tools_def Let_def assms(2) split: option.splits)
  have create: "\<And>st n. fst (create_coding_standard srv standard_name st) \<noteq> Exit n"
    by (simp add: create_coding_standard_def Let_def assms(3) split: option.splits prod.splits)
  have disable: "\<And>s st n. fst (disable_all_tools srv s st) \<noteq> Exit n"
    by (simp add: disable_all_tools_def Let_def assms(4) split: option.splits)
  have promote: "\<And>s st n. fst (promote_coding_standard srv s st) \<noteq> Exit n"
    by (simp add: promote_coding_standard_def Let_def assms(5))
  show ?thesis
    unfolding run_def
    apply (simp add: assms(1))
    apply (intro then_do_no_exit tools create disable promote enable_sonar_rules_no_exit
        generate_no_exit)
     apply (simp_all add: get_available_patterns_def paginate_no_exit)
    done
qed

subsection \<open>The failures together\<close>

text \<open>
  C4 (as amended). Three failures of the configuration sequence end the run: when the POST
  that creates the standard, the GET of the standard's tools or the POST that promotes
  fails, the step prints its error and exits with status 1. The other failures do not: a
  failed name check prints a warning and the requested name is used; a failed PATCH that
  disables a tool prints a warning, and the loop goes on and sends the PATCH of every tool
  of the standard; a failed PATCH that enables the patterns prints an error and gives
  \<open>False\<close>; a failed pattern retrieval, on the first page or on a later one, of
  \<open>_get_available_patterns\<close> as of \<open>_get_all_tool_patterns\<close>, prints a warning and gives
  the patterns of the pages retrieved so far. A run exits only with status 1 and only right
  after the error of an exiting failure; once the XML file is parsed and the tools are
  listed this is one of the three errors of the sequence, and before that it is the error
  of the XML parsing or of the tool listing. A run that has printed one of these errors has
  exited, and a run in which the XML file is parsed and the tool listing, the creation, the
  GET of the standard's tools and the promotion succeed does not exit, whatever else fails.
\<close>

theorem failure_handling:
  "((create_reply srv (length (sent (snd (get_unique_standard_name srv standard_name st))))
        (fst (get_unique_standard_name srv standard_name st)) = None \<longrightarrow>
      create_coding_standard srv standard_name st
        = (Exit 1,
           print ErrorCreatingStandard
             (send (PostStandard (fst (get_unique_standard_name srv standard_name st)))
                (snd (get_unique_standard_name srv standard_name st)))))
   \<and> (standard_tools_reply srv (length (sent st)) standard_id = None \<longrightarrow>
      disable_all_tools srv standard_id st
        = (Exit 1, print ErrorRetrievingStandardTools (send (GetStandardTools standard_id) st)))
   \<and> (\<not> promote_reply srv (length (sent st)) standard_id \<longrightarrow>
      promote_coding_standard srv standard_id st
        = (Exit 1, print ErrorPromoting (send (PostPromote standard_id) st)))
   \<and> (standards_reply srv (length (sent st)) = None \<longrightarrow>
      get_unique_standard_name srv standard_name st
        = (standard_name, print WarningStandardNames (send GetStandards st)))
   \<and> (\<not> patch_tool_reply srv (length (sent st)) standard_id uuid
           \<lparr>payload_enabled = False, payload_patterns = []\<rparr> \<longrightarrow>
      disable_tool srv standard_id uuid st
        = print (WarningDisableTool uuid)
            (send (PatchTool standard_id uuid \<lparr>payload_enabled = False, payload_patterns = []\<rparr>)
               st))
   \<and> (get_all_tool_patterns fuel srv uuid st = (Ok all_available, st1)
       \<and> \<not> patch_tool_reply srv (length (sent st1)) standard_id uuid
             \<lparr>payload_enabled = True,
              payload_patterns = comprehensive_patterns patterns all_available\<rparr> \<longrightarrow>
      enable_tool_patterns fuel srv standard_id uuid patterns st
        = (Ok False,
           print ErrorEnablingPatterns
             (send (PatchTool standard_id uuid
                      \<lparr>payload_enabled = True,
                       payload_patterns = comprehensive_patterns patterns all_available\<rparr>)
                st1)))
   \<and> (0 < fuel \<and> patterns_reply srv (length (sent st)) sonar_uuid None = None \<longrightarrow>
      get_available_patterns fuel srv st
        = (Ok {}, print WarningAvailablePatterns (send (GetPatterns sonar_uuid None) st)))
   \<and> (fst (run fuel srv standard_name doc st) = Exit n \<longrightarrow>
      n = 1 \<and> printed (snd (run fuel srv standard_name doc st)) \<noteq> printed st
      \<and> last (printed (snd (run fuel srv standard_name doc st)))
          \<in> {UnexpectedError, ErrorRetrievingTools, ErrorCreatingStandard,
              ErrorRetrievingStandardTools, ErrorPromoting})
   \<and> ((\<exists>m \<in> set (printed (snd (run fuel srv standard_name doc init_state))).
          m \<in> {UnexpectedError, ErrorRetrievingTools, ErrorCreatingStandard,
               ErrorRetrievingStandardTools, ErrorPromoting}) \<longrightarrow>
      fst (run fuel srv standard_name doc init_state) = Exit 1))
   \<and> (chain_reply srv uuid (length (sent st)) None K = None
       \<and> (\<forall>j<K. \<not> last_reply (chain_reply srv uuid (length (sent st)) None j))
       \<and> K < fuel \<longrightarrow>
      fst (get_all_tool_patterns fuel srv uuid st)
        = Ok (\<Union>k<K. reply_ids (chain_reply srv uuid (length (sent st)) None k))
      \<and> printed (snd (get_all_tool_patterns fuel srv uuid st))
        = printed st @ [WarningToolPatterns uuid])
   \<and> (chain_reply srv sonar_uuid (length (sent st)) None K = None
       \<and> (\<forall>j<K. \<not> last_reply (chain_reply srv sonar_uuid (length (sent st)) None j))
       \<and> K < fuel \<longrightarrow>
      fst (get_available_patterns fuel srv st)
        = Ok (\<Union>k<K. reply_ids (chain_reply srv sonar_uuid (length (sent st)) None k))
      \<and> printed (snd (get_available_patterns fuel srv st))
        = printed st @ [WarningAvailablePatterns])
   \<and> (standard_tools_reply srv (length (sent st)) standard_id = Some tools \<longrightarrow>
      disable_all_tools srv standard_id st
        = (Ok (),
           \<lparr>sent = sent st @ GetStandardTools standard_id
                     # map (\<lambda>u. PatchTool standard_id u
                                    \<lparr>payload_enabled = False, payload_patterns = []\<rparr>)
                         (disabled_uuids tools),
            printed = printed st @ map WarningDisableTool
                        (failed_disables srv standard_id (Suc (length (sent st)))
                           (disabled_uuids tools))\<rparr>))
   \<and> (parse_sonar_xml doc = Inr rules \<and> tools_reply srv (length (sent st)) = Some listed
       \<and> fst (run fuel srv standard_name doc st) = Exit n \<longrightarrow>
      last (printed (snd (run fuel srv standard_name doc st)))
        \<in> {ErrorCreatingStandard, ErrorRetrievingStandardTools, ErrorPromoting})
   \<and> (parse_sonar_xml doc = Inr rules
       \<and> (\<forall>k. tools_reply srv k \<noteq> None)
       \<and> (\<forall>k name. create_reply srv k name \<noteq> None)
       \<and> (\<forall>k s. standard_tools_reply srv k s \<noteq> None)
       \<and> (\<forall>k s. promote_reply srv k s) \<longrightarrow>
      fst (run fuel srv standard_name doc st) \<noteq> Exit n)"
proof (intro conjI impI)
  assume "create_reply srv (length (sent (snd (get_unique_standard_name srv standard_name st))))
        (fst (get_unique_standard_name srv standard_name st)) = None"
  then show "create_coding_standard srv standard_name st
        = (Exit 1,
           print ErrorCreatingStandard
             (send (PostStandard (fst (get_unique_standard_name srv standard_name st)))
                (snd (get_unique_standard_name srv standard_name st))))"
    by (auto simp: create_coding_standard_def Let_def split: prod.splits)
next
  assume "standard_tools_reply srv (length (sent st)) standard_id = None"
  then show "disable_all_tools srv standard_id st
        = (Exit 1, print ErrorRetrievingStandardTools (send (GetStandardTools standard_id) st))"
    by (simp add: disable_all_tools_def Let_def)
next
  assume "\<not> promote_reply srv (length (sent st)) standard_id"
  then show "promote_coding_standard srv standard_id st
        = (Exit 1, print ErrorPromoting (send (PostPromote standard_id) st))"
    by (simp add: promote_coding_standard_def Let_def)
next
  assume "standards_reply srv (length (sent st)) = None"
  then show "get_unique_standard_name srv standard_name st
        = (standard_name, print WarningStandardNames (send GetStandards st))"
    by (simp add: get_unique_standard_name_def Let_def)
next
  assume "\<not> patch_tool_reply srv (length (sent st)) standard_id uuid
           \<lparr>payload_enabled = False, payload_patterns = []\<rparr>"
  then show "disable_tool srv standard_id uuid st
        = print (WarningDisableTool uuid)
            (send (PatchTool standard_id uuid \<lparr>payload_enabled = False, payload_patterns = []\<rparr>)
               st)"
    by (simp add: disable_tool_def Let_def)
next
  assume "get_all_tool_patterns fuel srv uuid st = (Ok all_available, st1)
       \<and> \<not> patch_tool_reply srv (length (sent st1)) standard_id uuid
             \<lparr>payload_enabled = True,
              payload_patterns = comprehensive_patterns patterns all_available\<rparr>"
  then show "enable_tool_patterns fuel srv standard_id uuid patterns st
        = (Ok False,
           print ErrorEnablingPatterns
             (send (PatchTool standard_id uuid
                      \<lparr>payload_enabled = True,
                       payload_patterns = comprehensive_patterns patterns all_available\<rparr>)
                st1))"
    by (simp add: enable_tool_patterns_def then_do_def Let_def)
next
  assume a: "0 < fuel \<and> patterns_reply srv (length (sent st)) sonar_uuid None = None"
  then obtain f where "fuel = Suc f" by (cases fuel) auto
  with a show "get_available_patterns fuel srv st
        = (Ok {}, print WarningAvailablePatterns (send (GetPatterns sonar_uuid None) st))"
    by (simp add: get_available_patterns_def truthy_def Let_def)
next
  assume ex: "fst (run fuel srv standard_name doc st) = Exit n"
  from handled_run [of st fuel srv standard_name doc] ex
  obtain ms where ms: "printed (snd (run fuel srv standard_name doc st)) = printed st @ ms"
    and h: "n = 1" "ms \<noteq> []" "fatal (last ms)"
    by (auto simp: handled_def)
  from h(1) show "n = 1" .
  from ms h(2) show "printed (snd (run fuel srv standard_name doc st)) \<noteq> printed st"
    by simp
  from ms h(2,3) show "last (printed (snd (run fuel srv standard_name doc st)))
      \<in> {UnexpectedError, ErrorRetrievingTools, ErrorCreatingStandard,
          ErrorRetrievingStandardTools, ErrorPromoting}"
    by (simp add: fatal_iff)
next
  assume "\<exists>m \<in> set (printed (snd (run fuel srv standard_name doc init_state))).
          m \<in> {UnexpectedError, ErrorRetrievingTools, ErrorCreatingStandard,
               ErrorRetrievingStandardTools, ErrorPromoting}"
  then have f: "list_ex fatal (printed (snd (run fuel srv standard_name doc init_state)))"
    unfolding list_ex_iff fatal_iff .
  from handled_run [of init_state fuel srv standard_name doc]
  obtain ms where ms: "printed (snd (run fuel srv standard_name doc init_state)) = ms"
    and c: "case fst (run fuel srv standard_name doc init_state) of
               Exit n \<Rightarrow> n = 1 \<and> ms \<noteq> [] \<and> fatal (last ms) \<and> \<not> list_ex fatal (butlast ms)
             | OutOfFuel \<Rightarrow> \<not> list_ex fatal ms
             | Ok x \<Rightarrow> \<not> list_ex fatal ms"
    by (auto simp: handled_def init_state_def)
  from f ms c show "fst (run fuel srv standard_name doc init_state) = Exit 1"
    by (cases "fst (run fuel srv standard_name doc init_state)") simp_all
next
  assume a: "chain_reply srv uuid (length (sent st)) None K = None
       \<and> (\<forall>j<K. \<not> last_reply (chain_reply srv uuid (length (sent st)) None j))
       \<and> K < fuel"
  then have "fst (paginate fuel srv uuid add_pattern_ids (WarningToolPatterns uuid) None {} st)
           = Ok (\<Union>k<K. reply_ids (chain_reply srv uuid (length (sent st)) None k))
       \<and> printed (snd (paginate fuel srv uuid add_pattern_ids (WarningToolPatterns uuid) None {} st))
           = printed st @ [WarningToolPatterns uuid]"
    by (intro paginate_failure) simp_all
  then show "fst (get_all_tool_patterns fuel srv uuid st)
        = Ok (\<Union>k<K. reply_ids (chain_reply srv uuid (length (sent st)) None k))"
    and "printed (snd (get_all_tool_patterns fuel srv uuid st))
        = printed st @ [WarningToolPatterns uuid]"
    by (simp_all add: get_all_tool_patterns_def)
next
  assume a: "chain_reply srv sonar_uuid (length (sent st)) None K = None
       \<and> (\<forall>j<K. \<not> last_reply (chain_reply srv sonar_uuid (length (sent st)) None j))
       \<and> K < fuel"
  then have "fst (paginate fuel srv sonar_uuid add_pattern_ids WarningAvailablePatterns None {} st)
           = Ok (\<Union>k<K. reply_ids (chain_reply srv sonar_uuid (length (sent st)) None k))
       \<and> printed (snd (paginate fuel srv sonar_uuid add_pattern_ids WarningAvailablePatterns
                          None {} st))
           = printed st @ [WarningAvailablePatterns]"
    by (intro paginate_failure) simp_all
  then show "fst (get_available_patterns fuel srv st)
        = Ok (\<Union>k<K. reply_ids (chain_reply srv sonar_uuid (length (sent st)) None k))"
    and "printed (snd (get_available_patterns fuel srv st))
        = printed st @ [WarningAvailablePatterns]"
    by (simp_all add: get_available_patterns_def)
next
  assume "standard_tools_reply srv (length (sent st)) standard_id = Some tools"
  then show "disable_all_tools srv standard_id st
        = (Ok (),
           \<lparr>sent = sent st @ GetStandardTools standard_id
                     # map (\<lambda>u. PatchTool standard_id u
                                    \<lparr>payload_enabled = False, payload_patterns = []\<rparr>)
                         (disabled_uuids tools),
            printed = printed st @ map WarningDisableTool
                        (failed_disables srv standard_id (Suc (length (sent st)))
                           (disabled_uuids tools))\<rparr>)"
    by (rule disable_all_tools_continues)
next
  assume a: "parse_sonar_xml doc = Inr rules \<and> tools_reply srv (length (sent st)) = Some listed
       \<and> fst (run fuel srv standard_name doc st) = Exit n"
  from handled_run [of st fuel srv standard_name doc] a
  obtain ms where ms: "printed (snd (run fuel srv standard_name doc st)) = printed st @ ms"
    and h: "ms \<noteq> []" "fatal (last ms)"
    by (auto simp: handled_def)
  from run_after_tools [of doc rules srv st listed fuel standard_name] a
  obtain ms1 where ms1: "printed (snd (run fuel srv standard_name doc st)) = printed st @ ms1"
    and o: "\<not> list_ex early ms1"
    by (auto simp: omits_def)
  from ms ms1 have "ms1 = ms" by simp
  with o h(1) have "\<not> early (last ms)" by (simp add: list_ex_iff)
  with h(2) have "last ms \<in> {ErrorCreatingStandard, ErrorRetrievingStandardTools, ErrorPromoting}"
    by (cases "last ms") simp_all
  with ms h(1) show "last (printed (snd (run fuel srv standard_name doc st)))
        \<in> {ErrorCreatingStandard, ErrorRetrievingStandardTools, ErrorPromoting}"
    by simp
next
  assume a: "parse_sonar_xml doc = Inr rules
       \<and> (\<forall>k. tools_reply srv k \<noteq> None)
       \<and> (\<forall>k name. create_reply srv k name \<noteq> None)
       \<and> (\<forall>k s. standard_tools_reply srv k s \<noteq> None)
       \<and> (\<forall>k s. promote_reply srv k s)"
  then show "fst (run fuel srv standard_name doc st) \<noteq> Exit n"
    by (intro run_no_exit [of doc rules]) simp_all
qed


theorem failure_handling_witness:
  "create_reply failing_server
       (length (sent (snd (get_unique_standard_name failing_server ''Std'' init_state))))
       (fst (get_unique_standard_name failing_server ''Std'' init_state)) = None
   \<and> create_coding_standard failing_server ''Std'' init_state
     = (Exit 1,
        print ErrorCreatingStandard
          (send (PostStandard ''Std'') (print WarningStandardNames (send GetStandards init_state))))
   \<and> disable_all_tools failing_server ''42'' init_state
     = (Exit 1, print ErrorRetrievingStandardTools (send (GetStandardTools ''42'') init_state))
   \<and> promote_coding_standard failing_server ''42'' init_state
     = (Exit 1, print ErrorPromoting (send (PostPromote ''42'') init_state))
   \<and> disable_tool failing_server ''42'' ''u2'' init_state
     = print (WarningDisableTool ''u2'')
         (send (PatchTool ''42'' ''u2'' \<lparr>payload_enabled = False, payload_patterns = []\<rparr>)
            init_state)
   \<and> get_all_tool_patterns 1 failing_server ''u2'' init_state
     = (Ok {}, print (WarningToolPatterns ''u2'') (send (GetPatterns ''u2'' None) init_state))
   \<and> enable_tool_patterns 1 failing_server ''42'' ''u2'' [] init_state
     = (Ok False,
        print ErrorEnablingPatterns
          (send (PatchTool ''42'' ''u2''
                   \<lparr>payload_enabled = True, payload_patterns = comprehensive_patterns [] {}\<rparr>)
             (print (WarningToolPatterns ''u2'') (send (GetPatterns ''u2'' None) init_state))))
   \<and> get_available_patterns 1 failing_server init_state
     = (Ok {}, print WarningAvailablePatterns (send (GetPatterns sonar_uuid None) init_state))
   \<and> fst (run 1 failing_server ''Std'' profile_doc init_state) = Exit 1
   \<and> printed (snd (run 1 failing_server ''Std'' profile_doc init_state))
     = [ErrorRetrievingTools]
   \<and> fst (get_all_tool_patterns 2 flaky_server ''u1'' init_state) = Ok {''SonarCSharp_S2''}
   \<and> printed (snd (get_all_tool_patterns 2 flaky_server ''u1'' init_state))
     = [WarningToolPatterns ''u1'']
   \<and> fst (get_available_patterns 2 flaky_server init_state) = Ok {''SonarCSharp_S2''}
   \<and> printed (snd (get_available_patterns 2 flaky_server init_state))
     = [WarningAvailablePatterns]
   \<and> disable_all_tools flaky_server ''42'' init_state
     = (Ok (),
        \<lparr>sent = [GetStandardTools ''42'',
                 PatchTool ''42'' ''u2'' \<lparr>payload_enabled = False, payload_patterns = []\<rparr>,
                 PatchTool ''42'' ''u3'' \<lparr>payload_enabled = False, payload_patterns = []\<rparr>],
         printed = [WarningDisableTool ''u2'']\<rparr>)
   \<and> fst (run 1 create_failing_server ''Std'' profile_doc init_state) = Exit 1
   \<and> last (printed (snd (run 1 create_failing_server ''Std'' profile_doc init_state)))
     \<in> {ErrorCreatingStandard, ErrorRetrievingStandardTools, ErrorPromoting}
   \<and> fst (run 2 flaky_server ''Std'' profile_doc init_state) \<noteq> Exit 1"
proof -
  let ?st1 = "print (WarningToolPatterns ''u2'') (send (GetPatterns ''u2'' None) init_state)"
  let ?tools = "[\<lparr>tool_name = Some ''ESLint'', tool_uuid = Some ''u2''\<rparr>,
                 \<lparr>tool_name = Some ''PMD'', tool_uuid = Some ''u3''\<rparr>]"
  let ?listed = "[\<lparr>tool_name = Some ''SonarC#'', tool_uuid = Some ''u1''\<rparr>]"
  note fh = failure_handling [of failing_server "''Std''" init_state "''42''" "''u2''" 1
      "{}" ?st1 "[]" profile_doc 1, THEN conjunct1]
  have name: "get_unique_standard_name failing_server ''Std'' init_state
      = (''Std'', print WarningStandardNames (send GetStandards init_state))"
    by (simp add: get_unique_standard_name_def failing_server_def Let_def)
  have replies: "\<And>n name. create_reply failing_server n name = None"
    "\<And>n s. standard_tools_reply failing_server n s = None"
    "\<And>n s. \<not> promote_reply failing_server n s"
    "\<And>n. standards_reply failing_server n = None"
    "\<And>n s u p. \<not> patch_tool_reply failing_server n s u p"
    "\<And>n u c. patterns_reply failing_server n u c = None"
    by (simp_all add: failing_server_def)
  have tool: "get_all_tool_patterns 1 failing_server ''u2'' init_state = (Ok {}, ?st1)"
    by (simp add: get_all_tool_patterns_def replies truthy_def Let_def)
  have run: "run 1 failing_server ''Std'' profile_doc init_state
      = (Exit 1, \<lparr>sent = [GetTools], printed = [ErrorRetrievingTools]\<rparr>)"
    by code_simp
  have init: "length (sent init_state) = 0" "printed init_state = []" "sent init_state = []"
    by (simp_all add: init_state_def)
  have page: "\<And>u. chain_reply flaky_server u 0 None (Suc 0) = None"
    "\<And>u. \<forall>j<Suc 0. \<not> last_reply (chain_reply flaky_server u 0 None j)"
    "\<And>u. (\<Union>k<Suc 0. reply_ids (chain_reply flaky_server u 0 None k)) = {''SonarCSharp_S2''}"
    by (auto simp add: chain_reply_def flaky_server_def truthy_def last_reply_def
        reply_ids_def page_ids_def)
  note loops = failure_handling [where srv = flaky_server and uuid = "''u1''"
      and st = init_state and K = "Suc 0" and fuel = 2 and standard_id = "''42''"
      and tools = ?tools and doc = profile_doc and rules = profile_rules
      and standard_name = "''Std''" and n = 1, THEN conjunct2, unfolded init]
  have tool_patterns:
    "fst (get_all_tool_patterns 2 flaky_server ''u1'' init_state) = Ok {''SonarCSharp_S2''}
     \<and> printed (snd (get_all_tool_patterns 2 flaky_server ''u1'' init_state))
       = [WarningToolPatterns ''u1'']"
    using loops [THEN conjunct1] page by simp
  have available_patterns:
    "fst (get_available_patterns 2 flaky_server init_state) = Ok {''SonarCSharp_S2''}
     \<and> printed (snd (get_available_patterns 2 flaky_server init_state))
       = [WarningAvailablePatterns]"
    using loops [THEN conjunct2, THEN conjunct1] page by simp
  have listed: "standard_tools_reply flaky_server 0 ''42'' = Some ?tools"
    by (simp add: flaky_server_def)
  have patches: "\<And>k. \<not> patch_tool_reply flaky_server k ''42'' ''u2''
        \<lparr>payload_enabled = False, payload_patterns = []\<rparr>"
    "\<And>k. patch_tool_reply flaky_server k ''42'' ''u3''
        \<lparr>payload_enabled = False, payload_patterns = []\<rparr>"
    by (simp_all add: flaky_server_def)
  have disable: "disable_all_tools flaky_server ''42'' init_state
     = (Ok (),
        \<lparr>sent = [GetStandardTools ''42'',
                 PatchTool ''42'' ''u2'' \<lparr>payload_enabled = False, payload_patterns = []\<rparr>,
                 PatchTool ''42'' ''u3'' \<lparr>payload_enabled = False, payload_patterns = []\<rparr>],
         printed = [WarningDisableTool ''u2'']\<rparr>)"
    using loops [THEN conjunct2, THEN conjunct2, THEN conjunct1] listed patches
    by (simp add: disabled_uuids_def map_filter_def)
  have parsed: "parse_sonar_xml profile_doc = Inr profile_rules"
    by code_simp
  have stops: "tools_reply create_failing_server 0 = Some ?listed"
    "fst (run 1 create_failing_server ''Std'' profile_doc init_state) = Exit 1"
    by code_simp+
  note sequence = failure_handling [where srv = create_failing_server and st = init_state
      and doc = profile_doc and rules = profile_rules and listed = ?listed and fuel = 1
      and standard_name = "''Std''" and n = 1,
      THEN conjunct2, THEN conjunct2, THEN conjunct2, THEN conjunct2, THEN conjunct1,
      unfolded init]
  have three: "last (printed (snd (run 1 create_failing_server ''Std'' profile_doc init_state)))
     \<in> {ErrorCreatingStandard, ErrorRetrievingStandardTools, ErrorPromoting}"
    using sequence parsed stops by simp
  have always: "\<And>k. tools_reply flaky_server k \<noteq> None"
    "\<And>k name. create_reply flaky_server k name \<noteq> None"
    "\<And>k s. standard_tools_reply flaky_server k s \<noteq> None"
    "\<And>k s. promote_reply flaky_server k s"
    by (simp_all add: flaky_server_def working_server_def)
  have goes_on: "fst (run 2 flaky_server ''Std'' profile_doc init_state) \<noteq> Exit 1"
    using loops [THEN conjunct2, THEN conjunct2, THEN conjunct2, THEN conjunct2] parsed always
    by simp
  from fh name replies tool run tool_patterns available_patterns disable stops(2) three goes_on
  show ?thesis
    by simp
qed


text \<open>
  C4 as the specification states it fails on \<open>patch_failing_server\<close>: the name check, the
  PATCH that disables a tool and the PATCH that enables the patterns fail, each is printed,
  and the run goes on to promote the standard and comes to its end.
\<close>

theorem failure_handling_counterexample:
  "run 1 patch_failing_server ''Std'' profile_doc init_state
     = (Ok (2, 1),
        \<lparr>sent = working_trace,
         printed = [WarningStandardNames, WarningDisableTool ''u2'', ErrorEnablingPatterns]\<rparr>)"
  by code_simp

section \<open>The payload that enables the patterns\<close>

lemma tool_of_repository_known:
  "tool_of_repository r =
     (if r \<in> {Some ''csharpsquid'', Some ''roslyn.sonaranalyzer.security.cs''}
      then Some ''SonarC#'' else None)"
  by (simp add: tool_of_repository_def)

lemma map_rules_acc:
  "map_rules available rules [(''SonarC#'', acc)]
     = [(''SonarC#'', acc @ map pattern_config_of (matched_rules available rules))]"
  by (induction rules arbitrary: acc)
    (simp_all add: matched_rules_def tool_of_repository_known)

lemma map_rules_Nil:
  "map_rules available rules []
     = (if matched_rules available rules = [] then []
        else [(''SonarC#'', map pattern_config_of (matched_rules available rules))])"
  by (induction rules)
    (simp_all add: matched_rules_def tool_of_repository_known map_rules_acc [unfolded matched_rules_def])

lemma finite_page_ids: "finite (page_ids ps)"
proof -
  have "page_ids ps \<subseteq> Some -` (pattern_id ` set ps)"
    by (auto simp: page_ids_def)
  moreover have "finite (Some -` (pattern_id ` set ps))"
    by (simp add: finite_vimageI)
  ultimately show ?thesis by (rule finite_subset)
qed

lemma finite_paginate:
  "finite acc \<Longrightarrow> paginate fuel srv uuid add_pattern_ids msg c acc st = (Ok r, st1) \<Longrightarrow> finite r"
proof (induction fuel arbitrary: c acc st)
  case 0
  then show ?case by simp
next
  case (Suc fuel)
  show ?case
  proof (cases "patterns_reply srv (length (sent st)) uuid (if truthy c then c else None)")
    case None
    with Suc.prems show ?thesis by (simp add: Let_def)
  next
    case (Some pg)
    have fin: "finite (add_pattern_ids (page_data pg) acc)"
      using Suc.prems(1) by (simp add: add_pattern_ids_union finite_page_ids)
    show ?thesis
    proof (cases "truthy (page_cursor pg)")
      case False
      with Some Suc.prems(2) fin show ?thesis by (auto simp: Let_def)
    next
      case True
      with Some Suc.prems(2) have "paginate fuel srv uuid add_pattern_ids msg (page_cursor pg)
          (add_pattern_ids (page_data pg) acc)
          (send (GetPatterns uuid (if truthy c then c else None)) st) = (Ok r, st1)"
        by (simp add: Let_def)
      with fin show ?thesis by (rule Suc.IH)
    qed
  qed
qed

lemma filter_eq_distinct: "distinct xs \<Longrightarrow> p \<in> set xs \<Longrightarrow> filter (\<lambda>x. x = p) xs = [p]"
  by (induction xs) (auto simp: filter_empty_conv)

lemma comprehensive_enabled:
  assumes "\<And>c. c \<in> set patterns \<Longrightarrow> config_enabled c"
  shows "filter config_enabled (comprehensive_patterns patterns all_tool) = patterns"
  using assms by (simp add: comprehensive_patterns_def Let_def filter_map comp_def filter_id_conv)

lemma comprehensive_disabled_once:
  assumes "finite all_tool" and "p \<in> all_tool" and "p \<notin> config_id ` set patterns"
  shows "filter (\<lambda>c. config_id c = p) (comprehensive_patterns patterns all_tool)
           = [\<lparr>config_id = p, config_enabled = False, config_parameters = None\<rparr>]"
proof -
  let ?others = "filter (\<lambda>pid. pid \<notin> set (map config_id patterns)) (sorted_list_of_set all_tool)"
  have "distinct ?others" by simp
  moreover have "p \<in> set ?others" using assms by simp
  ultimately have one: "filter (\<lambda>x. x = p) ?others = [p]" by (rule filter_eq_distinct)
  have none: "filter (\<lambda>c. config_id c = p) patterns = []"
    using assms(3) by (auto simp: filter_empty_conv)
  let ?disabled = "\<lambda>pid. \<lparr>config_id = pid, config_enabled = False, config_parameters = None\<rparr>"
  have "filter (\<lambda>c. config_id c = p) (map ?disabled ?others)
      = map ?disabled (filter (\<lambda>x. x = p) ?others)"
    by (simp only: filter_map comp_def pattern_config.simps)
  then have "filter (\<lambda>c. config_id c = p) (map ?disabled ?others) = [?disabled p]"
    by (simp only: one list.map)
  with none show ?thesis
    unfolding comprehensive_patterns_def Let_def
    by (simp only: filter_append append_Nil)
qed

lemma comprehensive_disabled_from:
  assumes "finite all_tool" and "\<And>c. c \<in> set patterns \<Longrightarrow> config_enabled c"
    and "c \<in> set (comprehensive_patterns patterns all_tool)" and "\<not> config_enabled c"
  shows "config_id c \<in> all_tool"
  using assms by (auto simp: comprehensive_patterns_def Let_def)

lemma comprehensive_disabled_entry:
  assumes "c \<in> set (comprehensive_patterns patterns all_tool)" and "\<not> config_enabled c"
    and "\<And>c. c \<in> set patterns \<Longrightarrow> config_enabled c"
  shows "config_parameters c = None \<and> config_id c \<notin> config_id ` set patterns"
  using assms by (auto simp: comprehensive_patterns_def Let_def)

lemma comprehensive_enabled_first:
  assumes "\<And>c. c \<in> set patterns \<Longrightarrow> config_enabled c"
  shows "comprehensive_patterns patterns all_tool
           = filter config_enabled (comprehensive_patterns patterns all_tool)
             @ filter (\<lambda>c. \<not> config_enabled c) (comprehensive_patterns patterns all_tool)"
  using assms
  by (simp add: comprehensive_patterns_def Let_def filter_map comp_def filter_id_conv)

lemma lower_tool_name: "lower ''SonarC#'' = ''sonarc#''"
  by code_simp

lemma enable_sonar_rules_sent:
  assumes "get_available_patterns fuel srv st = (Ok available, st1)"
    and "tool_uuids ''sonarc#'' = Some uuid" and "uuid \<noteq> []"
    and "get_all_tool_patterns fuel srv uuid st1 = (Ok all_tool, st2)"
    and "matched_rules available rules \<noteq> []"
  shows "sent (snd (enable_sonar_rules fuel srv tool_uuids rules standard_id st))
      = sent st2 @ [PatchTool standard_id uuid
          \<lparr>payload_enabled = True,
           payload_patterns = comprehensive_patterns
             (map pattern_config_of (matched_rules available rules)) all_tool\<rparr>]"
  using assms
  by (simp add: enable_sonar_rules_def map_sonar_rules_to_codacy_patterns_def then_do_def
      map_rules_Nil lower_tool_name truthy_def enable_tool_patterns_def Let_def send_def print_def)


text \<open>
  C1 (as amended). When the importer sends the PATCH for the SonarC# tool, the payload
  marks a pattern as enabled exactly when it is the id \<open>SonarCSharp_\<close> followed by the key
  of an XML rule whose repository is \<open>csharpsquid\<close> or \<open>roslyn.sonaranalyzer.security.cs\<close>
  and whose id is among the available patterns retrieved; every other pattern retrieved for
  the tool is in the payload exactly once, disabled and without parameters, and nothing else
  is: a disabled entry is a pattern of the tool that no entry enables, and the enabled
  entries come first; each enabled entry carries the parameters of its rule as name and value
  pairs when the rule has parameters, and no parameters field otherwise.
\<close>

theorem enabled_patterns_payload:
  assumes "get_available_patterns fuel srv st = (Ok available, st1)"
    and "tool_uuids ''sonarc#'' = Some uuid" and "uuid \<noteq> []"
    and "get_all_tool_patterns fuel srv uuid st1 = (Ok all_tool, st2)"
    and "matched_rules available rules \<noteq> []"
  shows "\<exists>payload.
      sent (snd (enable_sonar_rules fuel srv tool_uuids rules standard_id st))
        = sent st2 @ [PatchTool standard_id uuid
                        \<lparr>payload_enabled = True, payload_patterns = payload\<rparr>]
      \<and> (\<forall>p. (\<exists>c\<in>set payload. config_id c = p \<and> config_enabled c) \<longleftrightarrow>
               (\<exists>rule\<in>set rules.
                   repository_key rule
                     \<in> {Some ''csharpsquid'', Some ''roslyn.sonaranalyzer.security.cs''}
                   \<and> p = ''SonarCSharp_'' @ py_str (rule_key rule) \<and> p \<in> available))
      \<and> (\<forall>p\<in>all_tool. \<not> (\<exists>c\<in>set payload. config_id c = p \<and> config_enabled c) \<longrightarrow>
             filter (\<lambda>c. config_id c = p) payload
               = [\<lparr>config_id = p, config_enabled = False, config_parameters = None\<rparr>])
      \<and> (\<forall>c\<in>set payload. \<not> config_enabled c \<longrightarrow>
             config_id c \<in> all_tool \<and> config_parameters c = None
             \<and> \<not> (\<exists>e\<in>set payload. config_id e = config_id c \<and> config_enabled e))
      \<and> filter config_enabled payload
          = map (\<lambda>rule. \<lparr>config_id = ''SonarCSharp_'' @ py_str (rule_key rule),
                          config_enabled = True,
                          config_parameters =
                            (if parameters rule = [] then None else Some (parameters rule))\<rparr>)
              (matched_rules available rules)
      \<and> payload = filter config_enabled payload @ filter (\<lambda>c. \<not> config_enabled c) payload"
proof -
  let ?patterns = "map pattern_config_of (matched_rules available rules)"
  let ?payload = "comprehensive_patterns ?patterns all_tool"
  have en: "\<And>c. c \<in> set ?patterns \<Longrightarrow> config_enabled c"
    by (auto simp: pattern_config_of_def)
  have fin: "finite all_tool"
    using assms(4) finite_paginate [of "{}"] by (simp add: get_all_tool_patterns_def)
  have enabled: "filter config_enabled ?payload = ?patterns"
    using en by (rule comprehensive_enabled)
  have ids: "\<And>p. (\<exists>c\<in>set ?payload. config_id c = p \<and> config_enabled c)
      \<longleftrightarrow> p \<in> config_id ` set ?patterns"
  proof -
    fix p
    have "(\<exists>c\<in>set ?payload. config_id c = p \<and> config_enabled c)
        \<longleftrightarrow> (\<exists>c\<in>set (filter config_enabled ?payload). config_id c = p)"
      by auto
    also have "\<dots> \<longleftrightarrow> p \<in> config_id ` set ?patterns"
      unfolding enabled by auto
    finally show "(\<exists>c\<in>set ?payload. config_id c = p \<and> config_enabled c)
      \<longleftrightarrow> p \<in> config_id ` set ?patterns" .
  qed
  have p1: "sent (snd (enable_sonar_rules fuel srv tool_uuids rules standard_id st))
        = sent st2 @ [PatchTool standard_id uuid
                        \<lparr>payload_enabled = True, payload_patterns = ?payload\<rparr>]"
    using assms by (rule enable_sonar_rules_sent)
  have p2: "\<forall>p. (\<exists>c\<in>set ?payload. config_id c = p \<and> config_enabled c) \<longleftrightarrow>
               (\<exists>rule\<in>set rules.
                   repository_key rule
                     \<in> {Some ''csharpsquid'', Some ''roslyn.sonaranalyzer.security.cs''}
                   \<and> p = ''SonarCSharp_'' @ py_str (rule_key rule) \<and> p \<in> available)"
    unfolding ids
    by (auto simp: matched_rules_def pattern_config_of_def rule_pattern_id_def sonar_prefix_def
        image_iff)
  have p3: "\<forall>p\<in>all_tool. \<not> (\<exists>c\<in>set ?payload. config_id c = p \<and> config_enabled c) \<longrightarrow>
             filter (\<lambda>c. config_id c = p) ?payload
               = [\<lparr>config_id = p, config_enabled = False, config_parameters = None\<rparr>]"
    unfolding ids using fin by (auto intro: comprehensive_disabled_once)
  have p4: "\<forall>c\<in>set ?payload. \<not> config_enabled c \<longrightarrow>
             config_id c \<in> all_tool \<and> config_parameters c = None
             \<and> \<not> (\<exists>e\<in>set ?payload. config_id e = config_id c \<and> config_enabled e)"
  proof (intro ballI impI)
    fix c assume c: "c \<in> set ?payload" "\<not> config_enabled c"
    from comprehensive_disabled_from [OF fin en c] have "config_id c \<in> all_tool" .
    moreover from comprehensive_disabled_entry [OF c en]
    have "config_parameters c = None" and "config_id c \<notin> config_id ` set ?patterns"
      by simp_all
    ultimately show "config_id c \<in> all_tool \<and> config_parameters c = None
        \<and> \<not> (\<exists>e\<in>set ?payload. config_id e = config_id c \<and> config_enabled e)"
      unfolding ids by simp
  qed
  have p6: "?payload = filter config_enabled ?payload @ filter (\<lambda>c. \<not> config_enabled c) ?payload"
    using en by (rule comprehensive_enabled_first)
  have p5: "filter config_enabled ?payload
          = map (\<lambda>rule. \<lparr>config_id = ''SonarCSharp_'' @ py_str (rule_key rule),
                          config_enabled = True,
                          config_parameters =
                            (if parameters rule = [] then None else Some (parameters rule))\<rparr>)
              (matched_rules available rules)"
    unfolding enabled
    by (simp add: pattern_config_of_def rule_pattern_id_def sonar_prefix_def)
  show ?thesis
    apply (rule exI [of _ ?payload])
    apply (intro conjI)
         apply (rule p1)
        apply (rule p2)
       apply (rule p3)
      apply (rule p4)
     apply (rule p5)
    apply (rule p6)
    done
qed



lemma available_working:
  "get_available_patterns 1 working_server init_state
     = (Ok {''SonarCSharp_S2'', ''SonarCSharp_S3''},
        \<lparr>sent = [GetPatterns sonar_uuid None], printed = []\<rparr>)"
  by code_simp

lemma all_tool_working:
  "get_all_tool_patterns 1 working_server ''u1''
       \<lparr>sent = [GetPatterns sonar_uuid None], printed = []\<rparr>
     = (Ok {''SonarCSharp_S2'', ''SonarCSharp_S3''},
        \<lparr>sent = [GetPatterns sonar_uuid None, GetPatterns ''u1'' None], printed = []\<rparr>)"
  by code_simp

lemma matched_profile_rules:
  "matched_rules {''SonarCSharp_S2'', ''SonarCSharp_S3''} profile_rules
     = [\<lparr>repository_key = Some ''csharpsquid'', rule_key = Some ''S2'',
         priority = Some ''MINOR'', parameters = [(Some ''max'', Some ''3'')]\<rparr>]"
  by (simp add: matched_rules_def profile_rules_def rule_pattern_id_def sonar_prefix_def
      py_str_def)

lemma enable_working:
  "sent (snd (enable_sonar_rules 1 working_server sonar_tool_uuids profile_rules ''42''
                init_state))
     = [GetPatterns sonar_uuid None, GetPatterns ''u1'' None,
        PatchTool ''42'' ''u1''
          \<lparr>payload_enabled = True,
           payload_patterns =
             [\<lparr>config_id = ''SonarCSharp_S2'', config_enabled = True,
               config_parameters = Some [(Some ''max'', Some ''3'')]\<rparr>,
              \<lparr>config_id = ''SonarCSharp_S3'', config_enabled = False,
               config_parameters = None\<rparr>]\<rparr>]"
  by code_simp

theorem enabled_patterns_payload_witness:
  "get_available_patterns 1 working_server init_state
     = (Ok {''SonarCSharp_S2'', ''SonarCSharp_S3''},
        \<lparr>sent = [GetPatterns sonar_uuid None], printed = []\<rparr>)
   \<and> sonar_tool_uuids ''sonarc#'' = Some ''u1''
   \<and> get_all_tool_patterns 1 working_server ''u1''
       \<lparr>sent = [GetPatterns sonar_uuid None], printed = []\<rparr>
     = (Ok {''SonarCSharp_S2'', ''SonarCSharp_S3''},
        \<lparr>sent = [GetPatterns sonar_uuid None, GetPatterns ''u1'' None], printed = []\<rparr>)
   \<and> matched_rules {''SonarCSharp_S2'', ''SonarCSharp_S3''} profile_rules \<noteq> []
   \<and> (\<exists>payload.
        sent (snd (enable_sonar_rules 1 working_server sonar_tool_uuids profile_rules ''42''
                     init_state))
          = [GetPatterns sonar_uuid None, GetPatterns ''u1'' None,
             PatchTool ''42'' ''u1'' \<lparr>payload_enabled = True, payload_patterns = payload\<rparr>]
        \<and> filter config_enabled payload
            = [\<lparr>config_id = ''SonarCSharp_S2'', config_enabled = True,
                config_parameters = Some [(Some ''max'', Some ''3'')]\<rparr>]
        \<and> filter (\<lambda>c. config_id c = ''SonarCSharp_S3'') payload
            = [\<lparr>config_id = ''SonarCSharp_S3'', config_enabled = False,
                config_parameters = None\<rparr>]
        \<and> filter (\<lambda>c. config_id c = ''SonarCSharp_S2'') payload
            = [\<lparr>config_id = ''SonarCSharp_S2'', config_enabled = True,
                config_parameters = Some [(Some ''max'', Some ''3'')]\<rparr>])"
proof -
  have uuid: "sonar_tool_uuids ''sonarc#'' = Some ''u1''" and ne: "''u1'' \<noteq> []"
    by (simp_all add: sonar_tool_uuids_def)
  have matched: "matched_rules {''SonarCSharp_S2'', ''SonarCSharp_S3''} profile_rules \<noteq> []"
    by (simp add: matched_profile_rules)
  from enabled_patterns_payload [where tool_uuids = sonar_tool_uuids and uuid = "''u1''"
      and standard_id = "''42''", OF available_working uuid ne all_tool_working matched]
  obtain payload where
    sent: "sent (snd (enable_sonar_rules 1 working_server sonar_tool_uuids profile_rules ''42''
                        init_state))
        = sent \<lparr>sent = [GetPatterns sonar_uuid None, GetPatterns ''u1'' None], printed = []\<rparr>
          @ [PatchTool ''42'' ''u1'' \<lparr>payload_enabled = True, payload_patterns = payload\<rparr>]"
    and ids: "\<forall>p. (\<exists>c\<in>set payload. config_id c = p \<and> config_enabled c) \<longleftrightarrow>
               (\<exists>rule\<in>set profile_rules.
                   repository_key rule
                     \<in> {Some ''csharpsquid'', Some ''roslyn.sonaranalyzer.security.cs''}
                   \<and> p = ''SonarCSharp_'' @ py_str (rule_key rule)
                   \<and> p \<in> {''SonarCSharp_S2'', ''SonarCSharp_S3''})"
    and dis: "\<forall>p\<in>{''SonarCSharp_S2'', ''SonarCSharp_S3''}.
           \<not> (\<exists>c\<in>set payload. config_id c = p \<and> config_enabled c) \<longrightarrow>
             filter (\<lambda>c. config_id c = p) payload
               = [\<lparr>config_id = p, config_enabled = False, config_parameters = None\<rparr>]"
    and off: "\<forall>c\<in>set payload. \<not> config_enabled c \<longrightarrow>
             config_id c \<in> {''SonarCSharp_S2'', ''SonarCSharp_S3''} \<and> config_parameters c = None
             \<and> \<not> (\<exists>e\<in>set payload. config_id e = config_id c \<and> config_enabled e)"
    and en: "filter config_enabled payload
        = map (\<lambda>rule. \<lparr>config_id = ''SonarCSharp_'' @ py_str (rule_key rule),
                        config_enabled = True,
                        config_parameters =
                          (if parameters rule = [] then None else Some (parameters rule))\<rparr>)
            (matched_rules {''SonarCSharp_S2'', ''SonarCSharp_S3''} profile_rules)"
    and order: "payload
        = filter config_enabled payload @ filter (\<lambda>c. \<not> config_enabled c) payload"
    by (elim exE conjE)
  have en1: "filter config_enabled payload
            = [\<lparr>config_id = ''SonarCSharp_S2'', config_enabled = True,
                config_parameters = Some [(Some ''max'', Some ''3'')]\<rparr>]"
    unfolding en matched_profile_rules by (simp add: py_str_def)
  have "(\<exists>c\<in>set payload. config_id c = ''SonarCSharp_S3'' \<and> config_enabled c) \<longleftrightarrow>
               (\<exists>rule\<in>set profile_rules.
                   repository_key rule
                     \<in> {Some ''csharpsquid'', Some ''roslyn.sonaranalyzer.security.cs''}
                   \<and> ''SonarCSharp_S3'' = ''SonarCSharp_'' @ py_str (rule_key rule)
                   \<and> ''SonarCSharp_S3'' \<in> {''SonarCSharp_S2'', ''SonarCSharp_S3''})"
    using ids by (rule spec)
  also have "\<dots> \<longleftrightarrow> False"
    by (simp add: profile_rules_def py_str_def)
  finally have no3: "\<not> (\<exists>c\<in>set payload. config_id c = ''SonarCSharp_S3'' \<and> config_enabled c)"
    by simp
  have mem: "''SonarCSharp_S3'' \<in> {''SonarCSharp_S2'', ''SonarCSharp_S3''}" by simp
  from dis mem have "\<not> (\<exists>c\<in>set payload. config_id c = ''SonarCSharp_S3'' \<and> config_enabled c) \<longrightarrow>
             filter (\<lambda>c. config_id c = ''SonarCSharp_S3'') payload
               = [\<lparr>config_id = ''SonarCSharp_S3'', config_enabled = False,
                   config_parameters = None\<rparr>]"
    by (rule bspec)
  with no3 have dis1: "filter (\<lambda>c. config_id c = ''SonarCSharp_S3'') payload
            = [\<lparr>config_id = ''SonarCSharp_S3'', config_enabled = False,
                config_parameters = None\<rparr>]"
    by (rule rev_mp)
  have sent1: "sent (snd (enable_sonar_rules 1 working_server sonar_tool_uuids profile_rules ''42''
                     init_state))
          = [GetPatterns sonar_uuid None, GetPatterns ''u1'' None,
             PatchTool ''42'' ''u1'' \<lparr>payload_enabled = True, payload_patterns = payload\<rparr>]"
    unfolding sent by simp
  let ?s2 = "\<lparr>config_id = ''SonarCSharp_S2'', config_enabled = True,
              config_parameters = Some [(Some ''max'', Some ''3'')]\<rparr>"
  have "?s2 \<in> set (filter config_enabled payload)"
    unfolding en1 by simp
  then have s2: "?s2 \<in> set payload" and s2_on: "config_enabled ?s2"
    by simp_all
  have none: "filter (\<lambda>c. config_id c = ''SonarCSharp_S2'')
      (filter (\<lambda>c. \<not> config_enabled c) payload) = []"
  proof -
    have "\<And>c. c \<in> set payload \<Longrightarrow> \<not> config_enabled c \<Longrightarrow> config_id c \<noteq> ''SonarCSharp_S2''"
    proof
      fix c assume c: "c \<in> set payload" "\<not> config_enabled c"
        and id: "config_id c = ''SonarCSharp_S2''"
      from off c have "\<not> (\<exists>e\<in>set payload. config_id e = config_id c \<and> config_enabled e)"
        by blast
      moreover from s2 s2_on id
      have "\<exists>e\<in>set payload. config_id e = config_id c \<and> config_enabled e"
        by (intro bexI [of _ ?s2]) simp_all
      ultimately show False by contradiction
    qed
    then show ?thesis unfolding filter_empty_conv by auto
  qed
  have "filter (\<lambda>c. config_id c = ''SonarCSharp_S2'') payload
      = filter (\<lambda>c. config_id c = ''SonarCSharp_S2'')
          (filter config_enabled payload @ filter (\<lambda>c. \<not> config_enabled c) payload)"
    by (rule arg_cong [OF order])
  also have "\<dots> = filter (\<lambda>c. config_id c = ''SonarCSharp_S2'') (filter config_enabled payload)
      @ filter (\<lambda>c. config_id c = ''SonarCSharp_S2'') (filter (\<lambda>c. \<not> config_enabled c) payload)"
    by (rule filter_append)
  also have "\<dots> = [?s2]"
    unfolding none en1 by simp
  finally have en2: "filter (\<lambda>c. config_id c = ''SonarCSharp_S2'') payload = [?s2]" .
  from sent1 en1 dis1 en2 have ex: "\<exists>payload.
        sent (snd (enable_sonar_rules 1 working_server sonar_tool_uuids profile_rules ''42''
                     init_state))
          = [GetPatterns sonar_uuid None, GetPatterns ''u1'' None,
             PatchTool ''42'' ''u1'' \<lparr>payload_enabled = True, payload_patterns = payload\<rparr>]
        \<and> filter config_enabled payload
            = [\<lparr>config_id = ''SonarCSharp_S2'', config_enabled = True,
                config_parameters = Some [(Some ''max'', Some ''3'')]\<rparr>]
        \<and> filter (\<lambda>c. config_id c = ''SonarCSharp_S3'') payload
            = [\<lparr>config_id = ''SonarCSharp_S3'', config_enabled = False,
                config_parameters = None\<rparr>]
        \<and> filter (\<lambda>c. config_id c = ''SonarCSharp_S2'') payload
            = [\<lparr>config_id = ''SonarCSharp_S2'', config_enabled = True,
                config_parameters = Some [(Some ''max'', Some ''3'')]\<rparr>]"
    by (intro exI [of _ payload] conjI)
  show ?thesis
    apply (intro conjI)
        apply (rule available_working)
       apply (rule uuid)
      apply (rule all_tool_working)
     apply (rule matched)
    apply (rule ex)
    done
qed


text \<open>
  C1 as the specification states it fails on \<open>mixed_doc\<close>: S3 is the key of an XML rule and
  its pattern id is among the available patterns, but the rule's repository is not one the
  importer maps to a tool, and the payload disables the pattern.
\<close>

theorem enabled_patterns_counterexample:
  "xml_rule_keys mixed_doc = [''S2'', ''S3'']
   \<and> fst (get_available_patterns 1 working_server init_state)
       = Ok {''SonarCSharp_S2'', ''SonarCSharp_S3''}
   \<and> run 1 working_server ''Std'' mixed_doc init_state
     = (Ok (2, 2),
        \<lparr>sent =
           [GetTools, GetStandards, PostStandard ''Std'', GetStandardTools ''42'',
            PatchTool ''42'' ''u2'' \<lparr>payload_enabled = False, payload_patterns = []\<rparr>,
            GetPatterns sonar_uuid None, GetPatterns ''u1'' None,
            PatchTool ''42'' ''u1''
              \<lparr>payload_enabled = True,
               payload_patterns =
                 [\<lparr>config_id = ''SonarCSharp_S2'', config_enabled = True,
                   config_parameters = None\<rparr>,
                  \<lparr>config_id = ''SonarCSharp_S3'', config_enabled = False,
                   config_parameters = None\<rparr>]\<rparr>,
            PostPromote ''42'', GetPatterns sonar_uuid None, GetPatterns sonar_uuid None],
         printed = []\<rparr>)"
  by code_simp

end
